theory Spec2Isabelle
  imports Main "HOL-Library.Word" "HOL-Library.Sublist" "HOL-Library.AList" "HOL-Library.Multiset"
begin

section \<open>Python values used by the parser\<close>

text \<open>
  The parser of \<^verbatim>\<open>drcov.py\<close> opens its input in binary mode (\<^verbatim>\<open>open(filepath, "rb")\<close>,
  \<^verbatim>\<open>io.BytesIO\<close>), so everything it reads is a Python \<^verbatim>\<open>bytes\<close> object: a list of
  bytes, here a list of 8-bit \<open>char\<close>s. A Python \<^verbatim>\<open>str\<close> is modelled by its UTF-8
  encoding, again a \<open>char list\<close>; the two are different Python types, and where the source
  compares a value of one with a value of the other the comparison is made on \<open>pyval\<close>,
  which keeps the type. Python integers are unbounded: \<open>int\<close>.
\<close>

type_synonym bytes = "char list"
type_synonym str = "char list"

datatype pyval = PyBytes bytes | PyStr str

text \<open>
  Python 3: \<^verbatim>\<open>b"abc" == "abc"\<close> is \<^verbatim>\<open>False\<close> and \<^verbatim>\<open>b"abc" != "abc"\<close> is \<^verbatim>\<open>True\<close>;
  values of the two types never compare equal.
\<close>

fun py_eq :: "pyval \<Rightarrow> pyval \<Rightarrow> bool" where
  "py_eq (PyBytes a) (PyBytes b) = (a = b)"
| "py_eq (PyStr a) (PyStr b) = (a = b)"
| "py_eq _ _ = False"

definition py_ne :: "pyval \<Rightarrow> pyval \<Rightarrow> bool" where
  "py_ne a b = (\<not> py_eq a b)"

datatype error =
  ValueError | IndexError | AssertionError | TypeError | UnicodeDecodeError | OverflowError
  | MemoryError

subsection \<open>bytes.strip, bytes.split, int\<close>

text \<open>ASCII whitespace, as \<^verbatim>\<open>bytes.strip()\<close> and \<^verbatim>\<open>int()\<close> see it: space, TAB, LF, VT, FF, CR.\<close>

definition is_space :: "char \<Rightarrow> bool" where
  "is_space c = (c = CHR '' '' \<or> c = CHR 0x09 \<or> c = CHR 0x0A \<or> c = CHR 0x0B \<or> c = CHR 0x0C \<or> c = CHR 0x0D)"

text \<open>\<^verbatim>\<open>s.strip(chars)\<close>: every leading and every trailing character of the set is removed.\<close>

definition py_strip :: "(char \<Rightarrow> bool) \<Rightarrow> char list \<Rightarrow> char list" where
  "py_strip P s = rev (dropWhile P (rev (dropWhile P s)))"

definition strip_ws :: "bytes \<Rightarrow> bytes" where
  "strip_ws s = py_strip is_space s"

text \<open>
  \<^verbatim>\<open>s.split(sep)\<close> for a non-empty separator: the pieces between the non-overlapping
  occurrences of \<open>sep\<close>, found from the left. Every call of the source passes a non-empty
  literal.
\<close>

function split_from :: "char list \<Rightarrow> char list \<Rightarrow> char list \<Rightarrow> char list list" where
  "split_from sep acc [] = [rev acc]"
| "split_from sep acc (c # cs) =
     (if prefix sep (c # cs) then rev acc # split_from sep [] (drop (length sep - 1) cs)
      else split_from sep (c # acc) cs)"
  by pat_completeness auto
termination
  by (relation "measure (\<lambda>(sep, acc, s). length s)") auto

definition py_split :: "char list \<Rightarrow> char list \<Rightarrow> char list list" where
  "py_split sep s = split_from sep [] s"

text \<open>\<^verbatim>\<open>a, b = xs\<close>: unpacking raises ValueError unless \<open>xs\<close> has exactly two elements.\<close>

fun unpack2 :: "'a list \<Rightarrow> error + ('a \<times> 'a)" where
  "unpack2 [a, b] = Inr (a, b)"
| "unpack2 _ = Inl ValueError"

text \<open>\<^verbatim>\<open>xs[i]\<close> for a non-negative literal index: IndexError out of range.\<close>

definition getitem :: "'a list \<Rightarrow> nat \<Rightarrow> error + 'a" where
  "getitem xs i = (if i < length xs then Inr (xs ! i) else Inl IndexError)"

text \<open>
  \<^verbatim>\<open>int(b)\<close> and \<^verbatim>\<open>int(b, 16)\<close> on bytes. The accepted literals are: optional whitespace,
  an optional sign, for base 16 an optional \<^verbatim>\<open>0x\<close>/\<^verbatim>\<open>0X\<close> (which one underscore may follow),
  digits of the base with single underscores between them, optional whitespace. Anything else
  raises ValueError. (The interpreter's configurable limit on the number of decimal digits is
  not modelled.)
\<close>

definition digit_val :: "char \<Rightarrow> nat" where
  "digit_val c =
     (let n = (of_char c :: nat) in
      if 48 \<le> n \<and> n \<le> 57 then n - 48
      else if 97 \<le> n \<and> n \<le> 122 then n - 87
      else if 65 \<le> n \<and> n \<le> 90 then n - 55
      else 37)"

fun no_double_underscore :: "char list \<Rightarrow> bool" where
  "no_double_underscore (a # b # cs) = (\<not> (a = CHR ''_'' \<and> b = CHR ''_'') \<and> no_double_underscore (b # cs))"
| "no_double_underscore _ = True"

definition int_digits :: "nat \<Rightarrow> char list \<Rightarrow> error + int" where
  "int_digits base t =
     (if t \<noteq> [] \<and> hd t \<noteq> CHR ''_'' \<and> last t \<noteq> CHR ''_'' \<and> no_double_underscore t
         \<and> list_all (\<lambda>c. c = CHR ''_'' \<or> digit_val c < base) t
      then Inr (foldl (\<lambda>a c. a * int base + int (digit_val c)) 0 (filter (\<lambda>c. c \<noteq> CHR ''_'') t))
      else Inl ValueError)"

definition strip_prefix16 :: "nat \<Rightarrow> char list \<Rightarrow> char list" where
  "strip_prefix16 base s =
     (if base = 16 \<and> (prefix ''0x'' s \<or> prefix ''0X'' s)
      then (let r = drop 2 s in if prefix ''_'' r then drop 1 r else r)
      else s)"

definition py_int :: "nat \<Rightarrow> bytes \<Rightarrow> error + int" where
  "py_int base s =
     (let s1 = dropWhile is_space s;
          neg = prefix ''-'' s1;
          s2 = (if prefix ''-'' s1 \<or> prefix ''+'' s1 then drop 1 s1 else s1);
          s3 = strip_prefix16 base s2;
          t = rev (dropWhile is_space (rev s3))
      in case int_digits base t of
           Inl e \<Rightarrow> Inl e
         | Inr v \<Rightarrow> Inr (if neg then - v else v))"

section \<open>The input stream\<close>

text \<open>
  A binary stream (\<^verbatim>\<open>io.BytesIO\<close>, or a file opened \<^verbatim>\<open>"rb"\<close>): its contents and the
  current position. Every operation returns the stream with the position it leaves.
\<close>

record stream =
  buf :: bytes
  pos :: nat

definition remaining :: "stream \<Rightarrow> bytes" where
  "remaining f = drop (pos f) (buf f)"

definition readline :: "stream \<Rightarrow> bytes \<times> stream" where
  "readline f =
     (let rest = remaining f;
          body = takeWhile (\<lambda>c. c \<noteq> CHR 0x0A) rest;
          line = (if length body < length rest then body @ [CHR 0x0A] else body)
      in (line, f\<lparr>pos := pos f + length line\<rparr>))"

definition read :: "stream \<Rightarrow> nat \<Rightarrow> bytes \<times> stream" where
  "read f n = (let chunk = take n (remaining f) in (chunk, f\<lparr>pos := pos f + length chunk\<rparr>))"

definition tell :: "stream \<Rightarrow> nat" where
  "tell f = pos f"

definition seek :: "stream \<Rightarrow> nat \<Rightarrow> stream" where
  "seek f p = f\<lparr>pos := p\<rparr>"

text \<open>
  \<^verbatim>\<open>f.readinto(b)\<close>: copies as many bytes as the stream still has, at most \<open>len(b)\<close>, over
  the start of the buffer \<open>b\<close>; the rest of \<open>b\<close> keeps its contents. A short read is not an
  error.
\<close>

definition readinto :: "stream \<Rightarrow> bytes \<Rightarrow> bytes \<times> stream" where
  "readinto f b =
     (let chunk = take (length b) (remaining f)
      in (chunk @ drop (length chunk) b, f\<lparr>pos := pos f + length chunk\<rparr>))"

section \<open>Basic blocks\<close>

text \<open>
  \<^verbatim>\<open>DrcovBasicBlock\<close> is a packed ctypes structure of 8 bytes: \<open>offset\<close> (\<^verbatim>\<open>c_uint32\<close>),
  \<open>size\<close> (\<^verbatim>\<open>c_uint16\<close>), \<open>mod_id\<close> (\<^verbatim>\<open>c_uint16\<close>), in the byte order of the machine, taken
  little-endian here. \<^verbatim>\<open>ParsedBasicBlock\<close> holds the same three fields as Python integers.
\<close>

record DrcovBasicBlock =
  bb_offset :: "32 word"
  bb_size :: "16 word"
  bb_mod_id :: "16 word"

record ParsedBasicBlock =
  p_offset :: int
  p_size :: int
  p_mod_id :: int

definition le_word :: "bytes \<Rightarrow> 'a::len word" where
  "le_word bs = foldr (\<lambda>c acc. of_char c + 256 * acc) bs 0"

text \<open>The array \<^verbatim>\<open>(DrcovBasicBlock * n)()\<close> seen through its memory of \<open>8 * n\<close> bytes.\<close>

fun from_buffer :: "bytes \<Rightarrow> DrcovBasicBlock list" where
  "from_buffer (b0 # b1 # b2 # b3 # b4 # b5 # b6 # b7 # rest) =
     \<lparr>bb_offset = le_word [b0, b1, b2, b3], bb_size = le_word [b4, b5], bb_mod_id = le_word [b6, b7]\<rparr>
       # from_buffer rest"
| "from_buffer _ = []"

section \<open>Sequencing of operations that may raise\<close>

definition then_do :: "error + 'a \<Rightarrow> ('a \<Rightarrow> error + 'b) \<Rightarrow> error + 'b" where
  "then_do m k = (case m of Inl e \<Rightarrow> Inl e | Inr v \<Rightarrow> k v)"

definition int_at :: "nat \<Rightarrow> bytes list \<Rightarrow> nat \<Rightarrow> error + int" where
  \<comment> \<open>\<^verbatim>\<open>int(data[i])\<close> and \<^verbatim>\<open>int(data[i], 16)\<close>\<close>
  "int_at base data i = then_do (getitem data i) (py_int base)"

section \<open>Modules\<close>

subsection \<open>bytes.decode, os.path.basename\<close>

text \<open>
  \<^verbatim>\<open>b.decode()\<close> is strict UTF-8: it raises UnicodeDecodeError on a byte sequence that is
  not well-formed UTF-8 (overlong forms, surrogates and code points above U+10FFFF included).
  A \<open>str\<close> is kept as its UTF-8 encoding, so decoding returns the bytes it has validated.
\<close>

definition cont_byte :: "nat \<Rightarrow> bool" where
  "cont_byte b = (128 \<le> b \<and> b \<le> 191)"

fun utf8_valid :: "nat list \<Rightarrow> bool" where
  "utf8_valid [] = True"
| "utf8_valid (a # rest) =
     (if a < 128 then utf8_valid rest
      else if 194 \<le> a \<and> a \<le> 223 then
        (case rest of b # r \<Rightarrow> cont_byte b \<and> utf8_valid r | _ \<Rightarrow> False)
      else if 224 \<le> a \<and> a \<le> 239 then
        (case rest of
           b # c # r \<Rightarrow>
             (if a = 224 then 160 \<le> b \<and> b \<le> 191
              else if a = 237 then 128 \<le> b \<and> b \<le> 159
              else cont_byte b) \<and> cont_byte c \<and> utf8_valid r
         | _ \<Rightarrow> False)
      else if 240 \<le> a \<and> a \<le> 244 then
        (case rest of
           b # c # d # r \<Rightarrow>
             (if a = 240 then 144 \<le> b \<and> b \<le> 191
              else if a = 244 then 128 \<le> b \<and> b \<le> 143
              else cont_byte b) \<and> cont_byte c \<and> cont_byte d \<and> utf8_valid r
         | _ \<Rightarrow> False)
      else False)"

definition decode :: "bytes \<Rightarrow> error + str" where
  "decode b = (if utf8_valid (map of_char b) then Inr b else Inl UnicodeDecodeError)"

text \<open>
  \<^verbatim>\<open>os.path.basename\<close> of a POSIX system (\<^verbatim>\<open>posixpath\<close>): the text after the last \<^verbatim>\<open>/\<close>,
  the whole path when it has none.
\<close>

definition basename :: "str \<Rightarrow> str" where
  "basename p = rev (takeWhile (\<lambda>c. c \<noteq> CHR ''/'') (rev p))"

definition is_quote :: "char \<Rightarrow> bool" where
  "is_quote c = (c = CHR 0x27)"

definition filename_of :: "str \<Rightarrow> str" where
  \<comment> \<open>\<^verbatim>\<open>os.path.basename(self.path).strip("'")\<close>\<close>
  "filename_of p = py_strip is_quote (basename p)"

subsection \<open>DrcovModule\<close>

text \<open>
  The attribute \<open>offset\<close> is not set by \<^verbatim>\<open>__init__\<close>; only the version 4 decoder creates it.
\<close>

record DrcovModule =
  m_id :: int
  m_base :: int
  m_end :: int
  m_size :: int
  m_entry :: int
  m_checksum :: int
  m_timestamp :: int
  m_path :: str
  m_filename :: str
  m_containing_id :: int
  m_offset :: "int option"

definition new_module :: DrcovModule where
  "new_module =
     \<lparr>m_id = 0, m_base = 0, m_end = 0, m_size = 0, m_entry = 0, m_checksum = 0, m_timestamp = 0,
      m_path = [], m_filename = [], m_containing_id = 0, m_offset = None\<rparr>"

definition last_item :: "'a list \<Rightarrow> error + 'a" where
  \<comment> \<open>\<^verbatim>\<open>data[-1]\<close>\<close>
  "last_item xs = (if xs = [] then Inl IndexError else Inr (last xs))"

definition parse_module_v1 :: "DrcovModule \<Rightarrow> bytes list \<Rightarrow> error + DrcovModule" where
  "parse_module_v1 self data =
     then_do (int_at 10 data 0) (\<lambda>i.
     then_do (int_at 10 data 1) (\<lambda>sz.
     then_do (then_do (getitem data 2) decode) (\<lambda>p.
       Inr (self\<lparr>m_id := i, m_size := sz, m_path := p, m_filename := filename_of p\<rparr>))))"

definition parse_module_v2 :: "DrcovModule \<Rightarrow> bytes list \<Rightarrow> error + DrcovModule" where
  "parse_module_v2 self data =
     then_do (int_at 10 data 0) (\<lambda>i.
     then_do (int_at 16 data 1) (\<lambda>b.
     then_do (int_at 16 data 2) (\<lambda>e.
     then_do (int_at 16 data 3) (\<lambda>en.
     then_do (if length data = 7
              then then_do (int_at 16 data 4) (\<lambda>c.
                   then_do (int_at 16 data 5) (\<lambda>t. Inr (c, t)))
              else Inr (m_checksum self, m_timestamp self)) (\<lambda>(c, t).
     then_do (then_do (last_item data) decode) (\<lambda>p.
       Inr (self\<lparr>m_id := i, m_base := b, m_end := e, m_entry := en, m_checksum := c,
                 m_timestamp := t, m_path := p, m_size := e - b, m_filename := filename_of p\<rparr>)))))))"

definition parse_module_v3 :: "DrcovModule \<Rightarrow> bytes list \<Rightarrow> error + DrcovModule" where
  "parse_module_v3 self data =
     then_do (int_at 10 data 0) (\<lambda>i.
     then_do (int_at 10 data 1) (\<lambda>ci.
     then_do (int_at 16 data 2) (\<lambda>b.
     then_do (int_at 16 data 3) (\<lambda>e.
     then_do (int_at 16 data 4) (\<lambda>en.
     then_do (if length data = 7
              then then_do (int_at 16 data 5) (\<lambda>c.
                   then_do (int_at 16 data 6) (\<lambda>t. Inr (c, t)))
              else Inr (m_checksum self, m_timestamp self)) (\<lambda>(c, t).
     then_do (then_do (last_item data) decode) (\<lambda>p.
       Inr (self\<lparr>m_id := i, m_containing_id := ci, m_base := b, m_end := e, m_entry := en,
                 m_checksum := c, m_timestamp := t, m_path := p, m_size := e - b,
                 m_filename := filename_of p\<rparr>))))))))"

definition parse_module_v4 :: "DrcovModule \<Rightarrow> bytes list \<Rightarrow> error + DrcovModule" where
  "parse_module_v4 self data =
     then_do (int_at 10 data 0) (\<lambda>i.
     then_do (int_at 10 data 1) (\<lambda>ci.
     then_do (int_at 16 data 2) (\<lambda>b.
     then_do (int_at 16 data 3) (\<lambda>e.
     then_do (int_at 16 data 4) (\<lambda>en.
     then_do (int_at 16 data 5) (\<lambda>off.
     then_do (if length data = 7
              then then_do (int_at 16 data 6) (\<lambda>c.
                   then_do (int_at 16 data 7) (\<lambda>t. Inr (c, t)))
              else Inr (m_checksum self, m_timestamp self)) (\<lambda>(c, t).
     then_do (then_do (last_item data) decode) (\<lambda>p.
       Inr (self\<lparr>m_id := i, m_containing_id := ci, m_base := b, m_end := e, m_entry := en,
                 m_offset := Some off, m_checksum := c, m_timestamp := t, m_path := p,
                 m_size := e - b, m_filename := filename_of p\<rparr>)))))))))"

definition parse_module :: "DrcovModule \<Rightarrow> bytes \<Rightarrow> int \<Rightarrow> error + DrcovModule" where
  "parse_module self module_line version =
     (let data = py_split '', '' module_line in
      if version = 1 then parse_module_v1 self data
      else if version = 2 then parse_module_v2 self data
      else if version = 3 then parse_module_v3 self data
      else if version = 4 then parse_module_v4 self data
      else Inl ValueError)"

definition DrcovModule_init :: "bytes \<Rightarrow> int \<Rightarrow> error + DrcovModule" where
  \<comment> \<open>\<^verbatim>\<open>DrcovModule(module_data, version)\<close>\<close>
  "DrcovModule_init module_data version = parse_module new_module module_data version"

record ParsedModule =
  pm_id :: int
  pm_filename :: str
  pm_base :: int
  pm_end :: int
  pm_size :: int
  pm_checksum :: int
  pm_path :: str
  pm_entry :: int

section \<open>DrcovParser\<close>

text \<open>
  The attributes of a \<^verbatim>\<open>DrcovParser\<close> instance. The hit-count map is a Python dict of
  dicts: an association list in insertion order whose keys are distinct.
\<close>

type_synonym ('k, 'v) dict = "('k \<times> 'v) list"

record DrcovParser =
  parsed :: bool
  version :: int
  flavor :: "bytes option"
  module_table_count :: int
  module_table_version :: int
  raw_modules :: "DrcovModule list"
  parsed_modules :: "ParsedModule list"
  bb_table_count :: int
  bb_table_is_binary :: bool
  raw_basic_blocks :: "DrcovBasicBlock list"
  parsed_basic_blocks :: "ParsedBasicBlock list"
  bb_hit_count_map :: "(int, (int, nat) dict) dict"

definition new_parser :: DrcovParser where
  \<comment> \<open>the attributes as \<^verbatim>\<open>__init__\<close> sets them before it calls \<^verbatim>\<open>parse\<close>\<close>
  "new_parser =
     \<lparr>parsed = False, version = 0, flavor = None, module_table_count = 0,
      module_table_version = 0, raw_modules = [], parsed_modules = [], bb_table_count = 0,
      bb_table_is_binary = True, raw_basic_blocks = [], parsed_basic_blocks = [],
      bb_hit_count_map = []\<rparr>"

subsection \<open>Header\<close>

text \<open>
  The \<^verbatim>\<open>assert\<close> on the version stands after both lines have been read and split, so a
  flavor line without a colon raises IndexError first. (Assertions are taken as enabled, the
  interpreter's default.)
\<close>

definition parse_drcov_header :: "stream \<Rightarrow> DrcovParser \<Rightarrow> error + (DrcovParser \<times> stream)" where
  "parse_drcov_header f self =
     (let (l1, f1) = readline f; version_line = strip_ws l1 in
      then_do (then_do (getitem (py_split '':'' version_line) 1) (py_int 10)) (\<lambda>v.
        let self1 = self\<lparr>version := v\<rparr>;
            (l2, f2) = readline f1; flavor_line = strip_ws l2 in
        then_do (getitem (py_split '':'' flavor_line) 1) (\<lambda>fl.
          let self2 = self1\<lparr>flavor := Some fl\<rparr> in
          if version self2 = 2 then Inr (self2, f2) else Inl AssertionError)))"

subsection \<open>Module table\<close>

definition parse_module_table_header :: "stream \<Rightarrow> DrcovParser \<Rightarrow> error + (DrcovParser \<times> stream)" where
  "parse_module_table_header f self =
     (let (l, f1) = readline f; header_line = strip_ws l in
      then_do (unpack2 (py_split '': '' header_line)) (\<lambda>(field_name, field_data).
        case unpack2 (py_split '', '' field_data) of
          Inl e \<Rightarrow>
            \<comment> \<open>\<^verbatim>\<open>except ValueError\<close>: the version 1 header, \<^verbatim>\<open>Module Table: <count>\<close>\<close>
            then_do (py_int 10 field_data) (\<lambda>c.
              Inr (self\<lparr>module_table_count := c, module_table_version := 1\<rparr>, f1))
        | Inr (version_data, count_data) \<Rightarrow>
            then_do (unpack2 (py_split '' '' version_data)) (\<lambda>(data_name, ver).
            then_do (py_int 10 ver) (\<lambda>v.
              if \<not> (v = 2 \<or> v = 3 \<or> v = 4) then Inl ValueError
              else
                then_do (unpack2 (py_split '' '' count_data)) (\<lambda>(data_name, cnt).
                then_do (py_int 10 cnt) (\<lambda>c.
                  Inr (self\<lparr>module_table_version := v, module_table_count := c\<rparr>, f1)))))))"

definition parse_module_table_columns :: "stream \<Rightarrow> DrcovParser \<Rightarrow> error + (DrcovParser \<times> stream)" where
  "parse_module_table_columns f self =
     (if module_table_version self = 1 then Inr (self, f)
      else
        let (l, f1) = readline f; column_line = strip_ws l in
        then_do (unpack2 (py_split '': '' column_line)) (\<lambda>(field_name, field_data).
          Inr (self, f1)))"

text \<open>The loop \<^verbatim>\<open>for i in range(0, self.module_table_count)\<close>, by the number of rounds left.\<close>

fun modules_loop :: "nat \<Rightarrow> stream \<Rightarrow> DrcovParser \<Rightarrow> error + (DrcovParser \<times> stream)" where
  "modules_loop 0 f self = Inr (self, f)"
| "modules_loop (Suc k) f self =
     (let (l, f1) = readline f in
      then_do (DrcovModule_init (strip_ws l) (module_table_version self)) (\<lambda>m.
        modules_loop k f1 (self\<lparr>raw_modules := raw_modules self @ [m]\<rparr>)))"

definition parse_module_table_modules :: "stream \<Rightarrow> DrcovParser \<Rightarrow> error + (DrcovParser \<times> stream)" where
  "parse_module_table_modules f self = modules_loop (nat (module_table_count self)) f self"

definition parse_module_table :: "stream \<Rightarrow> DrcovParser \<Rightarrow> error + (DrcovParser \<times> stream)" where
  "parse_module_table f self =
     then_do (parse_module_table_header f self) (\<lambda>(self1, f1).
     then_do (parse_module_table_columns f1 self1) (\<lambda>(self2, f2).
       parse_module_table_modules f2 self2))"

subsection \<open>Basic block table\<close>

text \<open>
  The token is a \<^verbatim>\<open>str\<close> and \<^verbatim>\<open>f.read\<close> returns \<^verbatim>\<open>bytes\<close>; the source compares the two
  with \<^verbatim>\<open>==\<close>.
\<close>

definition parse_bb_table_header :: "stream \<Rightarrow> DrcovParser \<Rightarrow> error + (DrcovParser \<times> stream)" where
  "parse_bb_table_header f self =
     (let (l, f1) = readline f; header_line = strip_ws l in
      then_do (unpack2 (py_split '': '' header_line)) (\<lambda>(field_name, field_data).
      then_do (unpack2 (py_split '' '' field_data)) (\<lambda>(count_data, data_name).
      then_do (py_int 10 count_data) (\<lambda>n.
        let self1 = self\<lparr>bb_table_count := n\<rparr>;
            token = ''module id'';
            saved_position = tell f1;
            (chunk, f2) = read f1 (length token);
            self2 = (if py_eq (PyBytes chunk) (PyStr token)
                     then self1\<lparr>bb_table_is_binary := False\<rparr>
                     else self1\<lparr>bb_table_is_binary := True\<rparr>)
        in Inr (self2, seek f2 saved_position)))))"

text \<open>
  \<^verbatim>\<open>(DrcovBasicBlock * n)()\<close>, on a 64-bit build of the interpreter. The count is first
  converted to a C \<^verbatim>\<open>ssize_t\<close> (OverflowError outside its range); a negative count raises
  ValueError; an array of more than \<^verbatim>\<open>ssize_t\<close>'s maximum of bytes raises OverflowError;
  then the \<open>8 * n\<close> bytes are allocated and zeroed, which raises MemoryError when the machine
  does not have them. What the machine can allocate is not in the source: \<open>heap\<close>, the
  number of bytes available, is a parameter of every function that reaches the allocation.
\<close>

definition ssize_max :: int where
  "ssize_max = 2 ^ 63 - 1"

definition new_array :: "nat \<Rightarrow> int \<Rightarrow> error + bytes" where
  "new_array heap n =
     (if n < - ssize_max - 1 \<or> ssize_max < n then Inl OverflowError
      else if n < 0 then Inl ValueError
      else if ssize_max < 8 * n then Inl OverflowError
      else if heap < 8 * nat n then Inl MemoryError
      else Inr (replicate (8 * nat n) (CHR 0x00)))"

text \<open>
  In the text branch the line read is \<^verbatim>\<open>bytes\<close> and is compared with a \<^verbatim>\<open>str\<close> by \<^verbatim>\<open>!=\<close>;
  the pattern is compiled from a \<^verbatim>\<open>str\<close>, and \<^verbatim>\<open>pattern.match\<close> on \<^verbatim>\<open>bytes\<close> raises
  TypeError, in the first round of the loop over the array.
\<close>

definition text_entries :: "nat \<Rightarrow> stream \<Rightarrow> DrcovParser \<Rightarrow> error + (DrcovParser \<times> stream)" where
  "text_entries n f self =
     (if n = 0 then Inr (self, f)
      else let (l, f1) = readline f; text_entry = strip_ws l in Inl TypeError)"

definition parse_bb_table_entries ::
  "nat \<Rightarrow> stream \<Rightarrow> DrcovParser \<Rightarrow> error + (DrcovParser \<times> stream)" where
  "parse_bb_table_entries heap f self =
     then_do (new_array heap (bb_table_count self)) (\<lambda>array.
        let n = nat (bb_table_count self);
            self1 = self\<lparr>raw_basic_blocks := from_buffer array\<rparr>
        in
        if bb_table_is_binary self1 then
          let (array', f1) = readinto f array
          in Inr (self1\<lparr>raw_basic_blocks := from_buffer array'\<rparr>, f1)
        else
          let (l, f1) = readline f; text_entry = strip_ws l in
          if py_ne (PyBytes text_entry) (PyStr ''module id, start, size:'') then Inl ValueError
          else text_entries n f1 self1)"

definition parse_bb_table ::
  "nat \<Rightarrow> stream \<Rightarrow> DrcovParser \<Rightarrow> error + (DrcovParser \<times> stream)" where
  "parse_bb_table heap f self =
     then_do (parse_bb_table_header f self) (\<lambda>(self1, f1).
       parse_bb_table_entries heap f1 self1)"

subsection \<open>Hit counts\<close>

text \<open>
  One round of the loop of \<^verbatim>\<open>_generate_bb_hit_count_map\<close>. A key that is new is added at
  the end of its dict; the value of a key that is present is replaced where it stands.
\<close>

definition hit_count_step ::
  "(int, (int, nat) dict) dict \<Rightarrow> DrcovBasicBlock \<Rightarrow> (int, (int, nat) dict) dict" where
  "hit_count_step d bb =
     (let mod_id = uint (bb_mod_id bb);
          off = uint (bb_offset bb);
          d1 = (case map_of d mod_id of None \<Rightarrow> AList.update mod_id [] d | Some _ \<Rightarrow> d);
          inner = (case map_of d1 mod_id of None \<Rightarrow> [] | Some i \<Rightarrow> i)
      in case map_of inner off of
           Some c \<Rightarrow> AList.update mod_id (AList.update off (c + 1) inner) d1
         | None \<Rightarrow> AList.update mod_id (AList.update off 1 inner) d1)"

definition generate_bb_hit_count_map :: "DrcovParser \<Rightarrow> DrcovParser" where
  "generate_bb_hit_count_map self =
     self\<lparr>bb_hit_count_map := foldl hit_count_step (bb_hit_count_map self) (raw_basic_blocks self)\<rparr>"

subsection \<open>Top level\<close>

definition parse_drcov_data :: "nat \<Rightarrow> bytes \<Rightarrow> DrcovParser \<Rightarrow> error + DrcovParser" where
  "parse_drcov_data heap drcov_data self =
     (let f = \<lparr>buf = drcov_data, pos = 0\<rparr> in
      then_do (parse_drcov_header f self) (\<lambda>(self1, f1).
      then_do (parse_module_table f1 self1) (\<lambda>(self2, f2).
      then_do (parse_bb_table heap f2 self2) (\<lambda>(self3, f3).
        Inr (generate_bb_hit_count_map self3)))))"

definition to_parsed_module :: "DrcovModule \<Rightarrow> ParsedModule" where
  "to_parsed_module raw_module =
     \<lparr>pm_id = m_id raw_module, pm_filename = m_filename raw_module, pm_base = m_base raw_module,
      pm_end = m_end raw_module, pm_size = m_size raw_module, pm_checksum = m_checksum raw_module,
      pm_path = m_path raw_module, pm_entry = m_entry raw_module\<rparr>"

definition to_parsed_bb :: "DrcovBasicBlock \<Rightarrow> ParsedBasicBlock" where
  "to_parsed_bb raw_bb =
     \<lparr>p_offset = uint (bb_offset raw_bb), p_size = uint (bb_size raw_bb),
      p_mod_id = uint (bb_mod_id raw_bb)\<rparr>"

definition convert_to_parsed_objects :: "DrcovParser \<Rightarrow> DrcovParser" where
  "convert_to_parsed_objects self =
     self\<lparr>parsed_modules := map to_parsed_module (raw_modules self),
          parsed_basic_blocks := map to_parsed_bb (raw_basic_blocks self)\<rparr>"

text \<open>
  \<^verbatim>\<open>DrcovParser(data=...)\<close>: the constructor calls \<^verbatim>\<open>parse\<close>, which decodes the data,
  converts the decoded objects and marks the instance as parsed. An exception leaves no
  instance behind.
\<close>

definition parse :: "nat \<Rightarrow> bytes \<Rightarrow> DrcovParser \<Rightarrow> error + DrcovParser" where
  "parse heap drcov_data self =
     (if parsed self then Inr self
      else then_do (parse_drcov_data heap drcov_data self) (\<lambda>self1.
             Inr ((convert_to_parsed_objects self1)\<lparr>parsed := True\<rparr>)))"

definition DrcovParser_init :: "nat \<Rightarrow> bytes \<Rightarrow> error + DrcovParser" where
  "DrcovParser_init heap drcov_data = parse heap drcov_data new_parser"

definition get_basic_blocks :: "DrcovParser \<Rightarrow> ParsedBasicBlock list" where
  "get_basic_blocks self = parsed_basic_blocks self"

subsection \<open>Module lookup\<close>

text \<open>
  \<^verbatim>\<open>str.lower()\<close> maps every character by the case tables of the interpreter's Unicode
  database, which are not in the source: the function \<open>lower\<close> is a parameter of the
  lookup, and what is proved of the lookup holds for every such function. Then \<^verbatim>\<open>a in b\<close>
  on strings, and the loop \<^verbatim>\<open>for module in ...: if ...: return module\<close>.
\<close>

fun contains :: "str \<Rightarrow> str \<Rightarrow> bool" where
  \<comment> \<open>\<open>contains s q\<close> is \<^verbatim>\<open>q in s\<close>\<close>
  "contains [] q = (q = [])"
| "contains (c # cs) q = (prefix q (c # cs) \<or> contains cs q)"

fun first_module :: "(ParsedModule \<Rightarrow> bool) \<Rightarrow> ParsedModule list \<Rightarrow> ParsedModule option" where
  "first_module P [] = None"
| "first_module P (m # ms) = (if P m then Some m else first_module P ms)"

definition get_module ::
  "(str \<Rightarrow> str) \<Rightarrow> DrcovParser \<Rightarrow> str \<Rightarrow> bool \<Rightarrow> ParsedModule option" where
  "get_module lower self module_name fuzzy =
     (if fuzzy then
        (case first_module (\<lambda>m. contains (lower (pm_filename m)) (lower module_name))
                (parsed_modules self) of
           Some m \<Rightarrow> Some m
         | None \<Rightarrow>
             let module_name' =
                   (if contains module_name ''.''
                    then (case py_split ''.'' module_name of x # _ \<Rightarrow> x | [] \<Rightarrow> module_name)
                    else module_name)
             in first_module (\<lambda>m. contains (lower (pm_filename m)) (lower module_name'))
                  (parsed_modules self))
      else first_module (\<lambda>m. module_name = pm_filename m) (parsed_modules self))"

definition get_blocks_by_module ::
  "(str \<Rightarrow> str) \<Rightarrow> DrcovParser \<Rightarrow> str \<Rightarrow> error + ParsedBasicBlock list" where
  "get_blocks_by_module lower self module_name =
     (case get_module lower self module_name True of
        None \<Rightarrow> Inl ValueError
      | Some m \<Rightarrow>
          let mod_id = pm_id m
          in Inr (filter (\<lambda>bb. p_mod_id bb = mod_id) (parsed_basic_blocks self)))"

section \<open>The specification's wording and example inputs\<close>

text \<open>
  Fuzzy lookup as the specification words it: the first module of the table whose lowercased
  filename has the lowercased query as a contiguous part; failing that, and if the query has
  a dot, the same search for the text before the first dot; otherwise not found.
\<close>

definition spec_fuzzy_lookup ::
  "(str \<Rightarrow> str) \<Rightarrow> ParsedModule list \<Rightarrow> str \<Rightarrow> ParsedModule option" where
  "spec_fuzzy_lookup lower ms q =
     (let hit = (\<lambda>q m. sublist (lower q) (lower (pm_filename m))) in
      case find (hit q) ms of
        Some m \<Rightarrow> Some m
      | None \<Rightarrow>
          if CHR ''.'' \<in> set q then find (hit (takeWhile (\<lambda>c. c \<noteq> CHR ''.'') q)) ms
          else None)"

text \<open>
  For the examples: \<^verbatim>\<open>str.lower()\<close> as it is on ASCII strings, and a machine with \<open>2 ^ 32\<close>
  bytes to allocate.
\<close>

definition lower_char :: "char \<Rightarrow> char" where
  "lower_char c =
     (let n = (of_char c :: nat) in if 65 \<le> n \<and> n \<le> 90 then char_of (n + 32) else c)"

definition ascii_lower :: "str \<Rightarrow> str" where
  "ascii_lower s = map lower_char s"

definition example_heap :: nat where
  "example_heap = 2 ^ 32"

text \<open>
  The end-to-end scenario of the specification: one version 2 module, and a binary table of
  two records \<open>(offset = 0x10, size = 4, mod_id = 0)\<close>; and the instance it parses to.
\<close>

definition example_log :: bytes where
  "example_log =
     ''DRCOV VERSION: 2\<newline>DRCOV FLAVOR: drcov\<newline>'' @
     ''Module Table: version 2, count 1\<newline>Columns: id, base, end, entry, path\<newline>'' @
     ''0, 0x400000, 0x401000, 0x400010, target.exe\<newline>'' @
     ''BB Table: 2 bbs\<newline>'' @
     [CHR 0x10, CHR 0x00, CHR 0x00, CHR 0x00, CHR 0x04, CHR 0x00, CHR 0x00, CHR 0x00,
      CHR 0x10, CHR 0x00, CHR 0x00, CHR 0x00, CHR 0x04, CHR 0x00, CHR 0x00, CHR 0x00]"

definition example_parser :: DrcovParser where
  "example_parser =
     \<lparr>parsed = True, version = 2, flavor = Some '' drcov'',
      module_table_count = 1, module_table_version = 2,
      raw_modules =
        [\<lparr>m_id = 0, m_base = 0x400000, m_end = 0x401000, m_size = 0x1000,
          m_entry = 0x400010, m_checksum = 0, m_timestamp = 0,
          m_path = ''target.exe'', m_filename = ''target.exe'',
          m_containing_id = 0, m_offset = None\<rparr>],
      parsed_modules =
        [\<lparr>pm_id = 0, pm_filename = ''target.exe'', pm_base = 0x400000,
          pm_end = 0x401000, pm_size = 0x1000, pm_checksum = 0,
          pm_path = ''target.exe'', pm_entry = 0x400010\<rparr>],
      bb_table_count = 2, bb_table_is_binary = True,
      raw_basic_blocks =
        [\<lparr>bb_offset = 0x10, bb_size = 4, bb_mod_id = 0\<rparr>,
         \<lparr>bb_offset = 0x10, bb_size = 4, bb_mod_id = 0\<rparr>],
      parsed_basic_blocks =
        [\<lparr>p_offset = 0x10, p_size = 4, p_mod_id = 0\<rparr>,
         \<lparr>p_offset = 0x10, p_size = 4, p_mod_id = 0\<rparr>],
      bb_hit_count_map = [(0, [(0x10, 2)])]\<rparr>"

text \<open>The instance and the stream where the array of blocks is about to be filled.\<close>

definition at_bb_table :: "bytes \<Rightarrow> error + (DrcovParser \<times> stream)" where
  "at_bb_table drcov_data =
     then_do (parse_drcov_header \<lparr>buf = drcov_data, pos = 0\<rparr> new_parser) (\<lambda>(self1, f1).
     then_do (parse_module_table f1 self1) (\<lambda>(self2, f2).
       parse_bb_table_header f2 self2))"

definition zero_block :: DrcovBasicBlock where
  "zero_block = \<lparr>bb_offset = 0, bb_size = 0, bb_mod_id = 0\<rparr>"

text \<open>Byte \<open>k\<close> of the data left in a stream, as an integer; 0 past the end of the data.\<close>

definition byte_at :: "bytes \<Rightarrow> nat \<Rightarrow> int" where
  "byte_at a k = (if k < length a then of_char (a ! k) else 0)"

text \<open>
  The block sequence \<open>[(offset = 0x10, size = 4, mod_id = 0)]\<close> as a table in each of the
  two encodings of the format, and a binary table that declares three records and holds ten
  bytes.
\<close>

definition binary_table :: bytes where
  "binary_table = ''BB Table: 1 bbs\<newline>'' @
     [CHR 0x10, CHR 0x00, CHR 0x00, CHR 0x00, CHR 0x04, CHR 0x00, CHR 0x00, CHR 0x00]"

definition text_table :: bytes where
  "text_table = ''BB Table: 1 bbs\<newline>module id, start, size:\<newline>module[  0]: 0x10,   4\<newline>''"

definition truncated_table :: bytes where
  "truncated_table = ''BB Table: 3 bbs\<newline>'' @
     [CHR 0x10, CHR 0x00, CHR 0x00, CHR 0x00, CHR 0x04, CHR 0x00, CHR 0x00, CHR 0x00,
      CHR 0x20, CHR 0x01]"

definition truncated_log :: bytes where
  "truncated_log =
     ''DRCOV VERSION: 2\<newline>DRCOV FLAVOR: drcov\<newline>'' @
     ''Module Table: version 2, count 1\<newline>Columns: id, base, end, entry, path\<newline>'' @
     ''0, 0x400000, 0x401000, 0x400010, target.exe\<newline>'' @ truncated_table"

definition truncated_parser :: DrcovParser where
  "truncated_parser =
     example_parser
       \<lparr>bb_table_count := 3,
        raw_basic_blocks :=
          [\<lparr>bb_offset = 0x10, bb_size = 4, bb_mod_id = 0\<rparr>,
           \<lparr>bb_offset = 0x120, bb_size = 0, bb_mod_id = 0\<rparr>,
           \<lparr>bb_offset = 0, bb_size = 0, bb_mod_id = 0\<rparr>],
        parsed_basic_blocks :=
          [\<lparr>p_offset = 0x10, p_size = 4, p_mod_id = 0\<rparr>,
           \<lparr>p_offset = 0x120, p_size = 0, p_mod_id = 0\<rparr>,
           \<lparr>p_offset = 0, p_size = 0, p_mod_id = 0\<rparr>],
        bb_hit_count_map := [(0, [(0x10, 1), (0x120, 1), (0, 1)])]\<rparr>"

text \<open>
  The filename as the specification words it: the last component of the path, with one
  layer of quote characters removed when the component has one at both ends, and unchanged
  otherwise.
\<close>

definition spec_filename :: "str \<Rightarrow> str" where
  "spec_filename p =
     (let c = basename p in
      if 2 \<le> length c \<and> hd c = CHR 0x27 \<and> last c = CHR 0x27 then butlast (tl c) else c)"

text \<open>
  Module table lines. A version 1 line whose path has a quote at one end only, and a
  version 2 line whose filename is quoted twice.
\<close>

definition unmatched_quote_line :: bytes where
  "unmatched_quote_line = ''0, 4096, /lib/'' @ [CHR 0x27] @ ''foo''"

definition double_quote_line :: bytes where
  "double_quote_line =
     ''0, 0x1000, 0x3000, 0x1010, /lib/'' @ [CHR 0x27, CHR 0x27] @ ''bar'' @ [CHR 0x27, CHR 0x27]"

text \<open>
  Lines with the Windows pair \<open>checksum, timestamp\<close> in the layouts of versions 2, 3 and 4,
  and version 4 lines without the pair (the second with a path that reads as a hexadecimal
  number).
\<close>

definition v2_windows_line :: bytes where
  "v2_windows_line = ''0, 0x400000, 0x401000, 0x400010, 0xabc, 0x12, target.exe''"

definition v3_windows_line :: bytes where
  "v3_windows_line = ''0, 0, 0x400000, 0x401000, 0x400010, 0xabc, 0x12, target.exe''"

definition v4_windows_line :: bytes where
  "v4_windows_line = ''0, 0, 0x400000, 0x401000, 0x400010, 0x0, 0xabc, 0x12, target.exe''"

definition v4_line :: bytes where
  "v4_line = ''0, 0, 0x400000, 0x401000, 0x400010, 0x0, target.exe''"

definition v4_hex_path_line :: bytes where
  "v4_hex_path_line = ''0, 0, 0x400000, 0x401000, 0x400010, 0x0, abc''"

text \<open>A log that declares version 3.\<close>

definition version3_log :: bytes where
  "version3_log = ''DRCOV VERSION: 3\<newline>DRCOV FLAVOR: drcov\<newline>Module Table: 0\<newline>BB Table: 0 bbs\<newline>''"

text \<open>
  The hit-count map. The key of a block is the pair of its module id and offset, read as
  Python integers; \<open>hit_count d m off\<close> is \<^verbatim>\<open>d[m][off]\<close> where both keys are present;
  \<open>total_hits\<close> adds all the counts of the map.
\<close>

definition bb_key :: "DrcovBasicBlock \<Rightarrow> int \<times> int" where
  "bb_key bb = (uint (bb_mod_id bb), uint (bb_offset bb))"

definition hit_count :: "(int, (int, nat) dict) dict \<Rightarrow> int \<Rightarrow> int \<Rightarrow> nat option" where
  "hit_count d m off = (case map_of d m of None \<Rightarrow> None | Some inner \<Rightarrow> map_of inner off)"

definition total_hits :: "(int, (int, nat) dict) dict \<Rightarrow> nat" where
  "total_hits d = sum_list (map (\<lambda>(m, inner). sum_list (map snd inner)) d)"

text \<open>
  Python's \<^verbatim>\<open>==\<close> on dicts: the same number of keys, and every key of the left dict is a
  key of the right one with an equal value. It does not look at the insertion order. The
  values of the hit-count map are dicts themselves.
\<close>

definition dict_eq :: "('v \<Rightarrow> 'v \<Rightarrow> bool) \<Rightarrow> ('k, 'v) dict \<Rightarrow> ('k, 'v) dict \<Rightarrow> bool" where
  "dict_eq veq a b =
     (length a = length b \<and>
      list_all (\<lambda>(k, v). case map_of b k of None \<Rightarrow> False | Some v' \<Rightarrow> veq v v') a)"

definition hit_map_eq :: "(int, (int, nat) dict) dict \<Rightarrow> (int, (int, nat) dict) dict \<Rightarrow> bool" where
  "hit_map_eq a b = dict_eq (dict_eq (=)) a b"

text \<open>What makes the association lists dicts: keys are distinct; no inner dict is empty.\<close>

definition wf_hit_map :: "(int, (int, nat) dict) dict \<Rightarrow> bool" where
  "wf_hit_map d =
     (distinct (map fst d) \<and> list_all (\<lambda>(m, inner). distinct (map fst inner) \<and> inner \<noteq> []) d)"

text \<open>Two instances whose arrays hold the same four blocks in different orders.\<close>

definition hits_parser :: DrcovParser where
  "hits_parser =
     new_parser\<lparr>raw_basic_blocks :=
       [\<lparr>bb_offset = 0x10, bb_size = 4, bb_mod_id = 0\<rparr>,
        \<lparr>bb_offset = 0x20, bb_size = 8, bb_mod_id = 0\<rparr>,
        \<lparr>bb_offset = 0x10, bb_size = 4, bb_mod_id = 0\<rparr>,
        \<lparr>bb_offset = 0x10, bb_size = 2, bb_mod_id = 1\<rparr>]\<rparr>"

definition permuted_parser :: DrcovParser where
  "permuted_parser =
     new_parser\<lparr>raw_basic_blocks :=
       [\<lparr>bb_offset = 0x10, bb_size = 2, bb_mod_id = 1\<rparr>,
        \<lparr>bb_offset = 0x20, bb_size = 8, bb_mod_id = 0\<rparr>,
        \<lparr>bb_offset = 0x10, bb_size = 4, bb_mod_id = 0\<rparr>,
        \<lparr>bb_offset = 0x10, bb_size = 4, bb_mod_id = 0\<rparr>]\<rparr>"

section \<open>Evaluation and sequencing lemmas\<close>

lemmas py_defs = py_split_def py_int_def int_digits_def digit_val_def strip_prefix16_def
  is_space_def strip_ws_def py_strip_def getitem_def int_at_def last_item_def py_ne_def

lemmas stream_defs = readline_def read_def tell_def seek_def readinto_def remaining_def

lemmas module_defs = DrcovModule_init_def parse_module_def parse_module_v1_def
  parse_module_v2_def parse_module_v3_def parse_module_v4_def new_module_def decode_def
  basename_def is_quote_def filename_of_def cont_byte_def

lemmas parser_defs = parse_drcov_header_def parse_module_table_header_def
  parse_module_table_columns_def parse_module_table_modules_def parse_module_table_def
  parse_bb_table_header_def parse_bb_table_entries_def parse_bb_table_def text_entries_def
  hit_count_step_def generate_bb_hit_count_map_def parse_drcov_data_def to_parsed_module_def
  to_parsed_bb_def convert_to_parsed_objects_def parse_def DrcovParser_init_def new_parser_def
  get_basic_blocks_def le_word_def new_array_def ssize_max_def example_heap_def

lemmas lookup_defs = get_module_def get_blocks_by_module_def ascii_lower_def lower_char_def

lemma replicate_num: "replicate (numeral k) x = x # replicate (pred_numeral k) x"
  by (simp add: numeral_eq_Suc)

lemma then_do_Inl [simp]: "then_do (Inl e) k = Inl e"
  by (simp add: then_do_def)

lemma then_do_Inr [simp]: "then_do (Inr v) k = k v"
  by (simp add: then_do_def)

lemma then_do_eq_Inr: "then_do m k = Inr r \<longleftrightarrow> (\<exists>v. m = Inr v \<and> k v = Inr r)"
  by (cases m) simp_all

section \<open>The end-to-end scenario\<close>

text \<open>
  The log of the specification's end-to-end scenario parses to one module (id 0, size
  \<open>0x1000\<close>, filename \<open>target.exe\<close>), two basic blocks and the hit-count map
  \<open>{0: {0x10: 2}}\<close>.
\<close>

lemma example_log_parses: "DrcovParser_init example_heap example_log = Inr example_parser"
  by (simp add: example_log_def example_parser_def py_defs stream_defs module_defs parser_defs
      Let_def replicate_num)

section \<open>Module lookup\<close>

lemma first_module_find: "first_module P ms = find P ms"
  by (induction ms) simp_all

lemma contains_sublist: "contains s q \<longleftrightarrow> sublist q s"
  by (induction s) (simp_all add: sublist_Cons_right)

lemma contains_single: "contains s [c] \<longleftrightarrow> c \<in> set s"
  by (induction s) auto

lemma sublist_single: "sublist [c] (s::str) \<longleftrightarrow> c \<in> set s"
  using contains_single [of s c] by (simp add: contains_sublist)

lemma split_from_single_head:
  "\<exists>rest. split_from [c] acc s = (rev acc @ takeWhile (\<lambda>x. x \<noteq> c) s) # rest"
proof (induction s arbitrary: acc)
  case Nil
  then show ?case by simp
next
  case (Cons a s)
  show ?case
  proof (cases "c = a")
    case True
    then show ?thesis by simp
  next
    case False
    with Cons [of "a # acc"] show ?thesis by simp
  qed
qed

lemma split_dot_head:
  "(case py_split ''.'' q of x # _ \<Rightarrow> x | [] \<Rightarrow> q) = takeWhile (\<lambda>c. c \<noteq> CHR ''.'') q"
  using split_from_single_head [of "CHR ''.''" "[]" q] by (auto simp: py_split_def)

text \<open>
  C7. Fuzzy lookup returns the first module in table order whose lowercased filename
  contains the lowercased query; if none does and the query has a dot, the query is cut
  before its first dot and the search is repeated in table order; if that finds nothing
  either, the result is not-found. This holds whatever function lowercases the strings.
\<close>

theorem get_module_fuzzy:
  "get_module lower self q True = spec_fuzzy_lookup lower (parsed_modules self) q"
  by (auto simp: get_module_def spec_fuzzy_lookup_def first_module_find contains_sublist
        sublist_single split_dot_head Let_def split: option.splits)

text \<open>
  C8. A name that resolves to no module makes \<open>get_blocks_by_module\<close> fail with an
  error, never return an empty list; a name that resolves gives the blocks whose
  \<open>mod_id\<close> is the id of the resolved module, in table order.
\<close>

theorem get_blocks_by_module_lookup:
  "(get_module lower self name True = None \<longrightarrow>
      get_blocks_by_module lower self name = Inl ValueError \<and>
      get_blocks_by_module lower self name \<noteq> Inr []) \<and>
   (\<forall>m. get_module lower self name True = Some m \<longrightarrow>
      get_blocks_by_module lower self name =
        Inr (filter (\<lambda>bb. p_mod_id bb = pm_id m) (parsed_basic_blocks self)))"
  by (simp add: get_blocks_by_module_def)

theorem get_blocks_by_module_lookup_witness:
  "get_module ascii_lower example_parser ''nosuch'' True = None \<and>
   get_blocks_by_module ascii_lower example_parser ''nosuch'' = Inl ValueError \<and>
   get_module ascii_lower example_parser ''TARGET.dll'' True = Some (hd (parsed_modules example_parser)) \<and>
   get_blocks_by_module ascii_lower example_parser ''TARGET.dll'' =
     Inr [\<lparr>p_offset = 0x10, p_size = 4, p_mod_id = 0\<rparr>, \<lparr>p_offset = 0x10, p_size = 4, p_mod_id = 0\<rparr>]"
proof -
  have none: "get_module ascii_lower example_parser ''nosuch'' True = None"
    by (simp add: lookup_defs example_parser_def py_split_def char_of_def bit_0)
  have some: "get_module ascii_lower example_parser ''TARGET.dll'' True = Some (hd (parsed_modules example_parser))"
    by (simp add: lookup_defs example_parser_def py_split_def char_of_def bit_0)
  show ?thesis
    using get_blocks_by_module_lookup [of ascii_lower example_parser "''nosuch''"]
      get_blocks_by_module_lookup [of ascii_lower example_parser "''TARGET.dll''"] none some
    by (simp add: example_parser_def)
qed

section \<open>The basic block table\<close>

lemma parse_bb_table_header_Inr:
  assumes "parse_bb_table_header f self = Inr (self', f')"
  shows "bb_table_is_binary self' \<and> f' = snd (readline f) \<and>
         self' = self\<lparr>bb_table_count := bb_table_count self', bb_table_is_binary := True\<rparr>"
  using assms
  by (auto simp: parse_bb_table_header_def then_do_eq_Inr Let_def seek_def read_def tell_def
      split: prod.splits)

text \<open>
  C2. After the header line the parser reads the next \<open>len("module id")\<close> bytes and puts
  the stream back where it was; the table should count as text-encoded exactly when those
  bytes are \<open>module id\<close>. Evaluated on a text-encoded table: the position is restored (16,
  the start of the table), the nine bytes there are \<open>module id\<close>, and the table is classified
  as binary.
\<close>

theorem sniff_classifies_text_table_as_binary:
  "parse_bb_table_header \<lparr>buf = text_table, pos = 0\<rparr> new_parser =
     Inr (new_parser\<lparr>bb_table_count := 1, bb_table_is_binary := True\<rparr>,
          \<lparr>buf = text_table, pos = 16\<rparr>) \<and>
   fst (read \<lparr>buf = text_table, pos = 16\<rparr> (length ''module id'')) = ''module id''"
  by (simp add: text_table_def py_defs stream_defs parse_bb_table_header_def new_parser_def Let_def)

text \<open>
  C1. The binary and the text encoding of one block sequence should decode to the same
  blocks. Evaluated on the encodings of \<open>[(offset = 0x10, size = 4, mod_id = 0)]\<close>: the
  binary table decodes to that block; the text table is read as a binary record made of its
  first eight bytes, \<open>module i\<close>; and the text branch of \<open>parse_bb_table_entries\<close>, entered
  directly, raises ValueError on the table's own header line.
\<close>

theorem text_table_decoded_as_binary:
  "map_sum id (raw_basic_blocks \<circ> fst) (parse_bb_table example_heap \<lparr>buf = binary_table, pos = 0\<rparr> new_parser) =
     Inr [\<lparr>bb_offset = 0x10, bb_size = 4, bb_mod_id = 0\<rparr>] \<and>
   map_sum id (raw_basic_blocks \<circ> fst) (parse_bb_table example_heap \<lparr>buf = text_table, pos = 0\<rparr> new_parser) =
     Inr [\<lparr>bb_offset = 0x75646F6D, bb_size = 0x656C, bb_mod_id = 0x6920\<rparr>] \<and>
   parse_bb_table_entries example_heap \<lparr>buf = text_table, pos = 16\<rparr>
     (new_parser\<lparr>bb_table_count := 1, bb_table_is_binary := False\<rparr>) = Inl ValueError"
  by (simp add: text_table_def binary_table_def py_defs stream_defs parser_defs Let_def)

subsection \<open>The array read from the stream\<close>

lemma length_from_buffer: "length (from_buffer bs) = length bs div 8"
  by (induction bs rule: from_buffer.induct) simp_all

lemma drop_8_Cons:
  "drop (8 + m) (b0 # b1 # b2 # b3 # b4 # b5 # b6 # b7 # rest) = drop m rest"
  by (simp add: numeral_eq_Suc)

text \<open>Record \<open>i\<close> of the array is made of the bytes \<open>8 * i\<close> to \<open>8 * i + 7\<close> of its memory.\<close>

lemma nth_from_buffer:
  "i < length bs div 8 \<Longrightarrow>
   from_buffer bs ! i =
     \<lparr>bb_offset = le_word (take 4 (drop (8 * i) bs)),
      bb_size = le_word (take 2 (drop (8 * i + 4) bs)),
      bb_mod_id = le_word (take 2 (drop (8 * i + 6) bs))\<rparr>"
proof (induction bs arbitrary: i rule: from_buffer.induct)
  case (1 b0 b1 b2 b3 b4 b5 b6 b7 rest)
  show ?case
  proof (cases i)
    case 0
    then show ?thesis by (simp add: numeral_eq_Suc)
  next
    case (Suc j)
    with "1.prems" have j: "j < length rest div 8" by simp
    have d: "drop (8 * Suc j + k) (b0 # b1 # b2 # b3 # b4 # b5 # b6 # b7 # rest) = drop (8 * j + k) rest" for k
      using drop_8_Cons [of "8 * j + k" b0 b1 b2 b3 b4 b5 b6 b7 rest] by (simp add: add.assoc)
    show ?thesis
      using "1.IH" [OF j] d [of 0] d [of 4] d [of 6] unfolding Suc by simp
  qed
qed simp_all

lemma le_word_zeros: "le_word (replicate k (CHR 0x00)) = 0"
  by (induction k) (simp_all add: le_word_def)

lemma readinto_short:
  assumes "length (remaining f) \<le> n"
  shows "readinto f (replicate n (CHR 0x00)) =
           (remaining f @ replicate (n - length (remaining f)) (CHR 0x00),
            f\<lparr>pos := pos f + length (remaining f)\<rparr>)"
  using assms by (simp add: readinto_def Let_def)

lemma from_buffer_zero_tail:
  assumes "length a \<le> 8 * i" "i < n" "length a \<le> 8 * n"
  shows "from_buffer (a @ replicate (8 * n - length a) (CHR 0x00)) ! i = zero_block"
proof -
  let ?bs = "a @ replicate (8 * n - length a) (CHR 0x00)"
  have len: "length ?bs = 8 * n" using assms by simp
  have i: "i < length ?bs div 8" using assms len by simp
  have d: "drop (8 * i + k) ?bs = replicate (8 * n - (8 * i + k)) (CHR 0x00)" for k
    using assms by simp
  have "take 4 (drop (8 * i) ?bs) = replicate 4 (CHR 0x00)"
    using d [of 0] assms by simp
  moreover have "take 2 (drop (8 * i + 4) ?bs) = replicate 2 (CHR 0x00)"
    using d [of 4] assms by simp
  moreover have "take 2 (drop (8 * i + 6) ?bs) = replicate 2 (CHR 0x00)"
    using d [of 6] assms by simp
  ultimately show ?thesis
    unfolding nth_from_buffer [OF i] zero_block_def by (simp only: le_word_zeros)
qed

lemma from_buffer_zero_fill:
  assumes "length a \<le> 8 * i" "i < n"
  shows "from_buffer (take (8 * n) a @ replicate (8 * n - length (take (8 * n) a)) (CHR 0x00)) ! i
           = zero_block"
proof -
  have "length a \<le> 8 * n" using assms by simp
  then have "take (8 * n) a = a" by simp
  then show ?thesis using from_buffer_zero_tail [OF assms(1,2) \<open>length a \<le> 8 * n\<close>] by simp
qed

lemma length_filled_array:
  "length (from_buffer (take (8 * n) a @ replicate (8 * n - length (take (8 * n) a)) (CHR 0x00))) = n"
  by (simp add: length_from_buffer)

text \<open>The fields of a record as integers: the little-endian reading of its bytes.\<close>

lemma of_char_lt_256: "(of_char c :: nat) < 256"
proof -
  have "(of_char c :: nat) mod 256 < 256" by simp
  then show ?thesis by (simp only: of_char_mod_256)
qed

lemma le_step:
  fixes x y n :: nat
  assumes "x < 256" "y < n"
  shows "x + 256 * y < 256 * n"
  using assms by linarith

lemma le_bound2:
  fixes a b :: nat
  assumes "a < 256" "b < 256"
  shows "a + 256 * b < 2 ^ 16"
  using le_step [OF assms] by simp

lemma le_bound4:
  fixes a b c d :: nat
  assumes "a < 256" "b < 256" "c < 256" "d < 256"
  shows "a + 256 * (b + 256 * (c + 256 * d)) < 2 ^ 32"
  using le_step [OF assms(1) le_step [OF assms(2) le_step [OF assms(3,4)]]] by simp

lemma word_of_char: "(of_char c :: 'a::len word) = of_nat (of_char c)"
  by (simp add: of_nat_of_char)

lemma int_of_char: "(of_char c :: int) = int (of_char c)"
  by (simp add: of_nat_of_char)

lemma uint_le_word4:
  "uint (le_word [a, b, c, d] :: 32 word) =
     of_char a + 256 * of_char b + 65536 * of_char c + 16777216 * of_char d"
proof -
  let ?N = "of_char a + 256 * (of_char b + 256 * (of_char c + 256 * of_char d)) :: nat"
  have w: "(le_word [a, b, c, d] :: 32 word) = of_nat ?N"
    by (simp add: le_word_def word_of_char)
  have b: "?N < 2 ^ 32"
    by (rule le_bound4) (rule of_char_lt_256)+
  have "unat (of_nat ?N :: 32 word) = ?N"
    unfolding unat_of_nat using b by simp
  then have "uint (le_word [a, b, c, d] :: 32 word) = int ?N"
    by (simp only: w uint_nat)
  then show ?thesis by (simp add: int_of_char)
qed

lemma uint_le_word2:
  "uint (le_word [a, b] :: 16 word) = of_char a + 256 * of_char b"
proof -
  let ?N = "of_char a + 256 * of_char b :: nat"
  have w: "(le_word [a, b] :: 16 word) = of_nat ?N"
    by (simp add: le_word_def word_of_char)
  have b: "?N < 2 ^ 16"
    by (rule le_bound2) (rule of_char_lt_256)+
  have "unat (of_nat ?N :: 16 word) = ?N"
    unfolding unat_of_nat using b by simp
  then have "uint (le_word [a, b] :: 16 word) = int ?N"
    by (simp only: w uint_nat)
  then show ?thesis by (simp add: int_of_char)
qed

lemma take_drop_nth:
  "j + 4 \<le> length d \<Longrightarrow> take 4 (drop j d) = [d ! j, d ! (j + 1), d ! (j + 2), d ! (j + 3)]"
  "j + 2 \<le> length d \<Longrightarrow> take 2 (drop j d) = [d ! j, d ! (j + 1)]"
  by (simp_all add: list_eq_iff_nth_eq nth_Cons' numeral_eq_Suc less_Suc_eq)

lemma byte_at_padded:
  "k < length (a @ replicate m (CHR 0x00)) \<Longrightarrow>
   (of_char ((a @ replicate m (CHR 0x00)) ! k) :: int) = byte_at a k"
  by (simp add: byte_at_def nth_append)

lemma new_array_ok:
  assumes "0 \<le> n" "8 * n \<le> ssize_max" "8 * nat n \<le> heap"
  shows "new_array heap n = Inr (replicate (8 * nat n) (CHR 0x00))"
  using assms by (simp add: new_array_def ssize_max_def)

lemma padded_record:
  assumes "length a \<le> 8 * n" "i < n"
  shows "uint (bb_offset (from_buffer (a @ replicate (8 * n - length a) (CHR 0x00)) ! i)) =
           byte_at a (8 * i) + 256 * byte_at a (8 * i + 1) + 65536 * byte_at a (8 * i + 2)
             + 16777216 * byte_at a (8 * i + 3)"
    and "uint (bb_size (from_buffer (a @ replicate (8 * n - length a) (CHR 0x00)) ! i)) =
           byte_at a (8 * i + 4) + 256 * byte_at a (8 * i + 5)"
    and "uint (bb_mod_id (from_buffer (a @ replicate (8 * n - length a) (CHR 0x00)) ! i)) =
           byte_at a (8 * i + 6) + 256 * byte_at a (8 * i + 7)"
proof -
  let ?d = "a @ replicate (8 * n - length a) (CHR 0x00)"
  have len: "length ?d = 8 * n" using assms(1) by simp
  have i: "i < length ?d div 8" using assms(2) len by simp
  have b: "(of_char (?d ! k) :: int) = byte_at a k" if "k < 8 * n" for k
    by (rule byte_at_padded) (use that len in simp)
  have k: "8 * i < 8 * n" "8 * i + 1 < 8 * n" "8 * i + 2 < 8 * n" "8 * i + 3 < 8 * n"
    "8 * i + 4 < 8 * n" "8 * i + 5 < 8 * n" "8 * i + 6 < 8 * n" "8 * i + 7 < 8 * n"
    using assms(2) by simp_all
  have e: "8 * i + 4 + 1 = 8 * i + 5" "8 * i + 6 + 1 = 8 * i + 7" by simp_all
  have t4: "take 4 (drop (8 * i) ?d) = [?d ! (8 * i), ?d ! (8 * i + 1), ?d ! (8 * i + 2), ?d ! (8 * i + 3)]"
    by (rule take_drop_nth(1)) (use assms(2) len in simp)
  have t2: "take 2 (drop (8 * i + 4) ?d) = [?d ! (8 * i + 4), ?d ! (8 * i + 5)]"
    using take_drop_nth(2) [of "8 * i + 4" ?d] assms(2) len by (simp only: e)
  have t2': "take 2 (drop (8 * i + 6) ?d) = [?d ! (8 * i + 6), ?d ! (8 * i + 7)]"
    using take_drop_nth(2) [of "8 * i + 6" ?d] assms(2) len by (simp only: e)
  show "uint (bb_offset (from_buffer ?d ! i)) =
           byte_at a (8 * i) + 256 * byte_at a (8 * i + 1) + 65536 * byte_at a (8 * i + 2)
             + 16777216 * byte_at a (8 * i + 3)"
    by (simp only: nth_from_buffer [OF i] DrcovBasicBlock.select_convs t4 uint_le_word4
        b [OF k(1)] b [OF k(2)] b [OF k(3)] b [OF k(4)])
  show "uint (bb_size (from_buffer ?d ! i)) = byte_at a (8 * i + 4) + 256 * byte_at a (8 * i + 5)"
    by (simp only: nth_from_buffer [OF i] DrcovBasicBlock.select_convs t2 uint_le_word2
        b [OF k(5)] b [OF k(6)])
  show "uint (bb_mod_id (from_buffer ?d ! i)) = byte_at a (8 * i + 6) + 256 * byte_at a (8 * i + 7)"
    by (simp only: nth_from_buffer [OF i] DrcovBasicBlock.select_convs t2' uint_le_word2
        b [OF k(7)] b [OF k(8)])
qed

lemma new_array_too_large:
  assumes "0 \<le> n" "ssize_max < 8 * n"
  shows "new_array heap n = Inl OverflowError"
  using assms by (simp add: new_array_def)

lemma new_array_no_memory:
  assumes "0 \<le> n" "8 * n \<le> ssize_max" "heap < 8 * nat n"
  shows "new_array heap n = Inl MemoryError"
  using assms by (simp add: new_array_def ssize_max_def)

lemma parse_bb_table_entries_binary:
  assumes "bb_table_is_binary self" and "parse_bb_table_entries heap f self = Inr (self', f')"
  shows "0 \<le> bb_table_count self \<and>
         self' = self\<lparr>raw_basic_blocks :=
                   from_buffer (take (8 * nat (bb_table_count self)) (remaining f) @
                     replicate (8 * nat (bb_table_count self)
                                - length (take (8 * nat (bb_table_count self)) (remaining f)))
                       (CHR 0x00))\<rparr>"
  using assms
  by (auto simp: parse_bb_table_entries_def new_array_def then_do_eq_Inr readinto_def Let_def
      split: if_splits)

lemma truncated_log_parses: "DrcovParser_init example_heap truncated_log = Inr truncated_parser"
  by (simp add: truncated_log_def truncated_table_def truncated_parser_def example_parser_def
      py_defs stream_defs module_defs parser_defs Let_def replicate_num)

subsection \<open>Truncated binary tables\<close>

text \<open>
  C4, as the specification states it: a binary table that declares \<open>n\<close> records and has
  fewer than \<open>8 * n\<close> bytes left makes the parse fail. It does not: with three records
  declared and ten bytes left, the table is decoded, and so is the whole log that ends in
  this table.
\<close>

theorem truncated_binary_table_counterexample:
  "length (remaining \<lparr>buf = truncated_table, pos = 16\<rparr>) < 8 * 3 \<and>
   parse_bb_table example_heap \<lparr>buf = truncated_table, pos = 0\<rparr> new_parser =
     Inr (new_parser\<lparr>bb_table_count := 3, bb_table_is_binary := True,
            raw_basic_blocks :=
              [\<lparr>bb_offset = 0x10, bb_size = 4, bb_mod_id = 0\<rparr>,
               \<lparr>bb_offset = 0x120, bb_size = 0, bb_mod_id = 0\<rparr>,
               \<lparr>bb_offset = 0, bb_size = 0, bb_mod_id = 0\<rparr>]\<rparr>,
          \<lparr>buf = truncated_table, pos = 26\<rparr>) \<and>
   DrcovParser_init example_heap truncated_log = Inr truncated_parser"
proof -
  have "length (remaining \<lparr>buf = truncated_table, pos = 16\<rparr>) < 8 * 3"
    by (simp add: truncated_table_def remaining_def)
  moreover have "parse_bb_table example_heap \<lparr>buf = truncated_table, pos = 0\<rparr> new_parser =
     Inr (new_parser\<lparr>bb_table_count := 3, bb_table_is_binary := True,
            raw_basic_blocks :=
              [\<lparr>bb_offset = 0x10, bb_size = 4, bb_mod_id = 0\<rparr>,
               \<lparr>bb_offset = 0x120, bb_size = 0, bb_mod_id = 0\<rparr>,
               \<lparr>bb_offset = 0, bb_size = 0, bb_mod_id = 0\<rparr>]\<rparr>,
          \<lparr>buf = truncated_table, pos = 26\<rparr>)"
    by (simp add: truncated_table_def py_defs stream_defs parser_defs Let_def replicate_num)
  ultimately show ?thesis using truncated_log_parses by simp
qed

text \<open>
  C4, amended: a binary table that declares \<open>n \<ge> 0\<close> records and has fewer than \<open>8 * n\<close>
  bytes left is decoded without error whenever the array of \<open>n\<close> records can be allocated
  (its \<open>8 * n\<close> bytes are within \<^verbatim>\<open>ssize_t\<close> and within the memory available; otherwise
  the allocation raises OverflowError or MemoryError). All the bytes left are consumed; the
  array has \<open>n\<close> records; the fields of record \<open>i\<close> are the little-endian readings of bytes
  \<open>8 * i\<close> to \<open>8 * i + 7\<close> of the data left, a byte past the end of the data reading as 0;
  so every record that starts at or after the end of the data has all its fields zero.
\<close>

theorem truncated_binary_table_completes:
  assumes "bb_table_is_binary self" and "0 \<le> bb_table_count self"
    and "8 * bb_table_count self \<le> ssize_max" and "8 * nat (bb_table_count self) \<le> heap"
    and "length (remaining f) < 8 * nat (bb_table_count self)"
  shows "\<exists>blocks.
           parse_bb_table_entries heap f self =
             Inr (self\<lparr>raw_basic_blocks := blocks\<rparr>, f\<lparr>pos := pos f + length (remaining f)\<rparr>) \<and>
           length blocks = nat (bb_table_count self) \<and>
           (\<forall>i < nat (bb_table_count self).
              uint (bb_offset (blocks ! i)) =
                byte_at (remaining f) (8 * i) + 256 * byte_at (remaining f) (8 * i + 1)
                  + 65536 * byte_at (remaining f) (8 * i + 2)
                  + 16777216 * byte_at (remaining f) (8 * i + 3) \<and>
              uint (bb_size (blocks ! i)) =
                byte_at (remaining f) (8 * i + 4) + 256 * byte_at (remaining f) (8 * i + 5) \<and>
              uint (bb_mod_id (blocks ! i)) =
                byte_at (remaining f) (8 * i + 6) + 256 * byte_at (remaining f) (8 * i + 7)) \<and>
           (\<forall>i < nat (bb_table_count self).
              length (remaining f) \<le> 8 * i \<longrightarrow> blocks ! i = zero_block)"
proof -
  let ?n = "nat (bb_table_count self)"
  let ?bs = "remaining f @ replicate (8 * ?n - length (remaining f)) (CHR 0x00)"
  have le: "length (remaining f) \<le> 8 * ?n" using assms(5) by simp
  have r: "parse_bb_table_entries heap f self =
      Inr (self\<lparr>raw_basic_blocks := from_buffer ?bs\<rparr>, f\<lparr>pos := pos f + length (remaining f)\<rparr>)"
    using assms(1)
    by (simp add: parse_bb_table_entries_def new_array_ok [OF assms(2,3,4)] Let_def
        readinto_short [OF le])
  have "length (from_buffer ?bs) = ?n"
    using le by (simp add: length_from_buffer)
  moreover have "\<forall>i < ?n. length (remaining f) \<le> 8 * i \<longrightarrow> from_buffer ?bs ! i = zero_block"
    using le by (auto intro: from_buffer_zero_tail)
  moreover have "\<forall>i < ?n.
      uint (bb_offset (from_buffer ?bs ! i)) =
        byte_at (remaining f) (8 * i) + 256 * byte_at (remaining f) (8 * i + 1)
          + 65536 * byte_at (remaining f) (8 * i + 2)
          + 16777216 * byte_at (remaining f) (8 * i + 3) \<and>
      uint (bb_size (from_buffer ?bs ! i)) =
        byte_at (remaining f) (8 * i + 4) + 256 * byte_at (remaining f) (8 * i + 5) \<and>
      uint (bb_mod_id (from_buffer ?bs ! i)) =
        byte_at (remaining f) (8 * i + 6) + 256 * byte_at (remaining f) (8 * i + 7)"
    using padded_record [OF le] by blast
  ultimately show ?thesis unfolding r by blast
qed

theorem truncated_binary_table_completes_witness:
  "bb_table_is_binary (new_parser\<lparr>bb_table_count := 3\<rparr>) \<and>
   0 \<le> bb_table_count (new_parser\<lparr>bb_table_count := 3\<rparr>) \<and>
   8 * bb_table_count (new_parser\<lparr>bb_table_count := 3\<rparr>) \<le> ssize_max \<and>
   8 * nat (bb_table_count (new_parser\<lparr>bb_table_count := 3\<rparr>)) \<le> example_heap \<and>
   length (remaining \<lparr>buf = truncated_table, pos = 16\<rparr>)
     < 8 * nat (bb_table_count (new_parser\<lparr>bb_table_count := 3\<rparr>)) \<and>
   (\<exists>blocks. parse_bb_table_entries example_heap \<lparr>buf = truncated_table, pos = 16\<rparr>
                  (new_parser\<lparr>bb_table_count := 3\<rparr>) =
                Inr (new_parser\<lparr>bb_table_count := 3, raw_basic_blocks := blocks\<rparr>,
                     \<lparr>buf = truncated_table, pos = 26\<rparr>) \<and>
       length blocks = 3 \<and>
       uint (bb_offset (blocks ! 0)) = 0x10 \<and> uint (bb_size (blocks ! 0)) = 4 \<and>
       uint (bb_offset (blocks ! 1)) = 0x120 \<and> blocks ! 2 = zero_block)"
proof -
  let ?s = "new_parser\<lparr>bb_table_count := 3\<rparr>"
  let ?f = "\<lparr>buf = truncated_table, pos = 16\<rparr>"
  have h1: "bb_table_is_binary ?s" and h2: "0 \<le> bb_table_count ?s"
    and h3: "8 * bb_table_count ?s \<le> ssize_max" and h4: "8 * nat (bb_table_count ?s) \<le> example_heap"
    by (simp_all add: new_parser_def ssize_max_def example_heap_def)
  have rem: "remaining ?f = [CHR 0x10, CHR 0x00, CHR 0x00, CHR 0x00, CHR 0x04, CHR 0x00, CHR 0x00,
      CHR 0x00, CHR 0x20, CHR 0x01]"
    by (simp add: truncated_table_def remaining_def)
  have h5: "length (remaining ?f) < 8 * nat (bb_table_count ?s)"
    unfolding rem by simp
  from truncated_binary_table_completes [OF h1 h2 h3 h4 h5] obtain blocks where
    r: "parse_bb_table_entries example_heap ?f ?s =
          Inr (?s\<lparr>raw_basic_blocks := blocks\<rparr>, ?f\<lparr>pos := pos ?f + length (remaining ?f)\<rparr>)" and
    l: "length blocks = nat (bb_table_count ?s)" and
    v: "\<forall>i < nat (bb_table_count ?s).
          uint (bb_offset (blocks ! i)) =
            byte_at (remaining ?f) (8 * i) + 256 * byte_at (remaining ?f) (8 * i + 1)
              + 65536 * byte_at (remaining ?f) (8 * i + 2)
              + 16777216 * byte_at (remaining ?f) (8 * i + 3) \<and>
          uint (bb_size (blocks ! i)) =
            byte_at (remaining ?f) (8 * i + 4) + 256 * byte_at (remaining ?f) (8 * i + 5) \<and>
          uint (bb_mod_id (blocks ! i)) =
            byte_at (remaining ?f) (8 * i + 6) + 256 * byte_at (remaining ?f) (8 * i + 7)" and
    z: "\<forall>i < nat (bb_table_count ?s).
          length (remaining ?f) \<le> 8 * i \<longrightarrow> blocks ! i = zero_block"
    by blast
  have r': "parse_bb_table_entries example_heap ?f ?s =
      Inr (new_parser\<lparr>bb_table_count := 3, raw_basic_blocks := blocks\<rparr>,
           \<lparr>buf = truncated_table, pos = 26\<rparr>)"
    using r unfolding rem by simp
  have l': "length blocks = 3" using l by simp
  have v0: "uint (bb_offset (blocks ! 0)) = 0x10 \<and> uint (bb_size (blocks ! 0)) = 4"
    using v [rule_format, of 0] unfolding rem by (simp add: byte_at_def)
  have v1: "uint (bb_offset (blocks ! 1)) = 0x120"
    using v [rule_format, of 1] unfolding rem by (simp add: byte_at_def)
  have z2: "blocks ! 2 = zero_block"
    using z [rule_format, of 2] unfolding rem by simp
  from h1 h2 h3 h4 h5 r' l' v0 v1 z2 show ?thesis by blast
qed

subsection \<open>The list of parsed blocks\<close>

lemma to_parsed_bb_bounds:
  "0 \<le> p_offset (to_parsed_bb b) \<and> p_offset (to_parsed_bb b) < 2 ^ 32 \<and>
   0 \<le> p_size (to_parsed_bb b) \<and> p_size (to_parsed_bb b) < 2 ^ 16 \<and>
   0 \<le> p_mod_id (to_parsed_bb b) \<and> p_mod_id (to_parsed_bb b) < 2 ^ 16"
proof -
  have "uint (bb_offset b) < 2 ^ 32" "uint (bb_size b) < 2 ^ 16" "uint (bb_mod_id b) < 2 ^ 16"
    using uint_lt2p [of "bb_offset b"] uint_lt2p [of "bb_size b"] uint_lt2p [of "bb_mod_id b"]
    by simp_all
  then show ?thesis by (simp add: to_parsed_bb_def)
qed

lemma to_parsed_zero_block:
  "to_parsed_bb zero_block = \<lparr>p_offset = 0, p_size = 0, p_mod_id = 0\<rparr>"
  by (simp add: to_parsed_bb_def zero_block_def)

text \<open>
  C10. When the constructor returns an instance, the header of the block table was read and
  declared a count \<open>n \<ge> 0\<close>; \<open>get_basic_blocks\<close> has exactly \<open>n\<close> entries; every offset
  fits in 32 bits and every size and module id in 16 bits; the table was read as binary, and
  every entry that starts at or after the end of the bytes the stream had left is all zero.
\<close>

theorem parsed_block_list_shape:
  assumes "DrcovParser_init heap drcov_data = Inr self"
  shows "\<exists>self3 f3. at_bb_table drcov_data = Inr (self3, f3) \<and>
           bb_table_count self = bb_table_count self3 \<and>
           0 \<le> bb_table_count self \<and>
           bb_table_is_binary self \<and>
           length (get_basic_blocks self) = nat (bb_table_count self) \<and>
           (\<forall>b \<in> set (get_basic_blocks self).
              0 \<le> p_offset b \<and> p_offset b < 2 ^ 32 \<and> 0 \<le> p_size b \<and> p_size b < 2 ^ 16 \<and>
              0 \<le> p_mod_id b \<and> p_mod_id b < 2 ^ 16) \<and>
           (\<forall>i < nat (bb_table_count self).
              length (remaining f3) \<le> 8 * i \<longrightarrow>
              get_basic_blocks self ! i = \<lparr>p_offset = 0, p_size = 0, p_mod_id = 0\<rparr>)"
proof -
  from assms obtain s4 where
    d: "parse_drcov_data heap drcov_data new_parser = Inr s4" and
    self: "self = (convert_to_parsed_objects s4)\<lparr>parsed := True\<rparr>"
    by (auto simp: DrcovParser_init_def parse_def new_parser_def then_do_eq_Inr)
  from d obtain s1 f1 s2 f2 s3 f3 s3' f3' where
    h: "parse_drcov_header \<lparr>buf = drcov_data, pos = 0\<rparr> new_parser = Inr (s1, f1)" and
    m: "parse_module_table f1 s1 = Inr (s2, f2)" and
    bh: "parse_bb_table_header f2 s2 = Inr (s3, f3)" and
    be: "parse_bb_table_entries heap f3 s3 = Inr (s3', f3')" and
    s4: "s4 = generate_bb_hit_count_map s3'"
    by (auto simp: parse_drcov_data_def parse_bb_table_def then_do_eq_Inr Let_def)
  have at: "at_bb_table drcov_data = Inr (s3, f3)"
    by (simp add: at_bb_table_def h m bh)
  have bin: "bb_table_is_binary s3"
    using parse_bb_table_header_Inr [OF bh] by simp
  let ?n = "nat (bb_table_count s3)"
  let ?raw = "from_buffer (take (8 * ?n) (remaining f3) @
                replicate (8 * ?n - length (take (8 * ?n) (remaining f3))) (CHR 0x00))"
  from parse_bb_table_entries_binary [OF bin be] have
    nn: "0 \<le> bb_table_count s3" and s3': "s3' = s3\<lparr>raw_basic_blocks := ?raw\<rparr>"
    by simp_all
  have cnt: "bb_table_count self = bb_table_count s3" and sbin: "bb_table_is_binary self"
    using bin
    by (simp_all add: self s4 s3' convert_to_parsed_objects_def generate_bb_hit_count_map_def)
  have blocks: "get_basic_blocks self = map to_parsed_bb ?raw"
    by (simp add: self s4 s3' convert_to_parsed_objects_def generate_bb_hit_count_map_def
        get_basic_blocks_def)
  have len: "length (get_basic_blocks self) = ?n"
    unfolding blocks by (simp only: length_map length_filled_array)
  have bounds: "\<forall>b \<in> set (get_basic_blocks self).
      0 \<le> p_offset b \<and> p_offset b < 2 ^ 32 \<and> 0 \<le> p_size b \<and> p_size b < 2 ^ 16 \<and>
      0 \<le> p_mod_id b \<and> p_mod_id b < 2 ^ 16"
    unfolding blocks using to_parsed_bb_bounds by auto
  have zeros: "\<forall>i < ?n. length (remaining f3) \<le> 8 * i \<longrightarrow>
      get_basic_blocks self ! i = \<lparr>p_offset = 0, p_size = 0, p_mod_id = 0\<rparr>"
  proof (intro allI impI)
    fix i assume i: "i < ?n" and short: "length (remaining f3) \<le> 8 * i"
    have "get_basic_blocks self ! i = to_parsed_bb (?raw ! i)"
      unfolding blocks using i by (simp only: nth_map length_filled_array)
    also have "?raw ! i = zero_block"
      by (rule from_buffer_zero_fill [OF short i])
    finally show "get_basic_blocks self ! i = \<lparr>p_offset = 0, p_size = 0, p_mod_id = 0\<rparr>"
      by (simp only: to_parsed_zero_block)
  qed
  show ?thesis
    using at cnt nn sbin len bounds zeros by (intro exI [of _ s3] exI [of _ f3]) simp
qed

theorem parsed_block_list_shape_witness:
  "DrcovParser_init example_heap truncated_log = Inr truncated_parser \<and>
   bb_table_count truncated_parser = 3 \<and>
   length (get_basic_blocks truncated_parser) = 3 \<and>
   get_basic_blocks truncated_parser ! 2 = \<lparr>p_offset = 0, p_size = 0, p_mod_id = 0\<rparr>"
proof -
  from parsed_block_list_shape [OF truncated_log_parses]
  have "length (get_basic_blocks truncated_parser) = nat (bb_table_count truncated_parser)"
    by blast
  moreover have "bb_table_count truncated_parser = 3"
    by (simp add: truncated_parser_def)
  moreover have "get_basic_blocks truncated_parser ! 2 = \<lparr>p_offset = 0, p_size = 0, p_mod_id = 0\<rparr>"
    by (simp add: truncated_parser_def get_basic_blocks_def)
  ultimately show ?thesis using truncated_log_parses by simp
qed

section \<open>Module table entries\<close>

lemma rev_split: "rev (dropWhile P (rev xs)) @ rev (takeWhile P (rev xs)) = xs"
proof -
  have "rev (dropWhile P (rev xs)) @ rev (takeWhile P (rev xs)) =
        rev (takeWhile P (rev xs) @ dropWhile P (rev xs))"
    by (simp only: rev_append)
  also have "\<dots> = xs" by simp
  finally show ?thesis .
qed

lemma basename_shape:
  "\<exists>dir. p = dir @ basename p \<and> (dir = [] \<or> last dir = CHR ''/'') \<and> CHR ''/'' \<notin> set (basename p)"
proof -
  let ?P = "\<lambda>c. c \<noteq> CHR ''/''"
  let ?dir = "rev (dropWhile ?P (rev p))"
  have 1: "p = ?dir @ basename p"
    unfolding basename_def by (simp only: rev_split)
  have 2: "?dir = [] \<or> last ?dir = CHR ''/''"
  proof (cases "dropWhile ?P (rev p) = []")
    case True
    then show ?thesis by simp
  next
    case False
    then have "\<not> ?P (hd (dropWhile ?P (rev p)))" by (rule hd_dropWhile)
    with False show ?thesis by (simp add: last_rev)
  qed
  have 3: "CHR ''/'' \<notin> set (basename p)"
    using set_takeWhileD [of "CHR ''/''" ?P "rev p"] by (auto simp: basename_def)
  from 1 2 3 show ?thesis by blast
qed

lemma py_strip_shape:
  "\<exists>a b. s = a @ py_strip P s @ b \<and> (\<forall>c \<in> set a. P c) \<and> (\<forall>c \<in> set b. P c) \<and>
         (py_strip P s = [] \<or> (\<not> P (hd (py_strip P s)) \<and> \<not> P (last (py_strip P s))))"
proof -
  let ?a = "takeWhile P s"
  let ?m = "dropWhile P s"
  let ?b = "rev (takeWhile P (rev ?m))"
  have m: "?m = py_strip P s @ ?b"
    unfolding py_strip_def by (simp only: rev_split)
  have "s = ?a @ ?m" by simp
  with m have 1: "s = ?a @ py_strip P s @ ?b" by simp
  have 2: "\<forall>c \<in> set ?a. P c" by (auto dest: set_takeWhileD)
  have 3: "\<forall>c \<in> set ?b. P c" by (auto dest: set_takeWhileD)
  have 4: "py_strip P s = [] \<or> (\<not> P (hd (py_strip P s)) \<and> \<not> P (last (py_strip P s)))"
  proof (cases "py_strip P s = []")
    case True
    then show ?thesis by simp
  next
    case False
    then have ne: "dropWhile P (rev ?m) \<noteq> []" by (simp add: py_strip_def)
    then have l: "\<not> P (last (py_strip P s))"
      using hd_dropWhile [OF ne] by (simp add: py_strip_def last_rev)
    from False m have "?m \<noteq> []" by (metis append_is_Nil_conv)
    then have "\<not> P (hd ?m)" by (rule hd_dropWhile)
    moreover from m False have "hd ?m = hd (py_strip P s)" by (metis hd_append2)
    ultimately show ?thesis using l by simp
  qed
  from 1 2 3 4 show ?thesis by blast
qed

lemma parse_module_filename:
  assumes "parse_module self line v = Inr m"
  shows "m_filename m = filename_of (m_path m)"
  using assms
  by (auto simp: parse_module_def parse_module_v1_def parse_module_v2_def parse_module_v3_def
      parse_module_v4_def then_do_eq_Inr Let_def split: if_splits prod.splits)

text \<open>
  C9, as the specification states it: the filename is the last path component with one layer
  of quotes removed when present at both ends, and is the component unchanged otherwise. The
  decoder differs on a component with a quote at one end only (the quote is removed) and on
  a component quoted twice (both layers are removed).
\<close>

theorem filename_quote_counterexample:
  "(\<exists>m. DrcovModule_init unmatched_quote_line 1 = Inr m \<and>
        m_path m = ''/lib/'' @ [CHR 0x27] @ ''foo'' \<and> m_filename m = ''foo'' \<and>
        spec_filename (m_path m) = [CHR 0x27] @ ''foo'') \<and>
   (\<exists>m. DrcovModule_init double_quote_line 2 = Inr m \<and> m_filename m = ''bar'' \<and>
        spec_filename (m_path m) = [CHR 0x27] @ ''bar'' @ [CHR 0x27])"
  by (simp add: unmatched_quote_line_def double_quote_line_def spec_filename_def py_defs
      module_defs Let_def)

text \<open>
  C9, amended: the filename of a decoded module is the text after the last \<open>/\<close> of its
  path with every leading and every trailing quote character removed, whether or not the
  other end has one: the path is a directory part that is empty or ends in \<open>/\<close>, then
  quotes, the filename, and quotes, and the filename neither starts nor ends with a quote.
\<close>

theorem filename_from_path:
  assumes "DrcovModule_init line v = Inr m"
  shows "m_filename m = py_strip is_quote (basename (m_path m)) \<and>
         (\<exists>dir a b. m_path m = dir @ a @ m_filename m @ b \<and>
            (dir = [] \<or> last dir = CHR ''/'') \<and>
            CHR ''/'' \<notin> set (a @ m_filename m @ b) \<and>
            (\<forall>c \<in> set (a @ b). c = CHR 0x27) \<and>
            (m_filename m = [] \<or>
             (hd (m_filename m) \<noteq> CHR 0x27 \<and> last (m_filename m) \<noteq> CHR 0x27)))"
proof -
  from assms have fn: "m_filename m = py_strip is_quote (basename (m_path m))"
    using parse_module_filename [of new_module line v m]
    by (simp add: DrcovModule_init_def filename_of_def)
  obtain dir where d: "m_path m = dir @ basename (m_path m)"
    "dir = [] \<or> last dir = CHR ''/''" "CHR ''/'' \<notin> set (basename (m_path m))"
    using basename_shape [of "m_path m"] by blast
  obtain a b where s: "basename (m_path m) = a @ m_filename m @ b"
    "\<forall>c \<in> set a. is_quote c" "\<forall>c \<in> set b. is_quote c"
    "m_filename m = [] \<or> (\<not> is_quote (hd (m_filename m)) \<and> \<not> is_quote (last (m_filename m)))"
    using py_strip_shape [of "basename (m_path m)" is_quote] unfolding fn [symmetric] by blast
  have "m_path m = dir @ a @ m_filename m @ b" using d(1) s(1) by simp
  moreover have "CHR ''/'' \<notin> set (a @ m_filename m @ b)" using d(3) s(1) by simp
  moreover have "\<forall>c \<in> set (a @ b). c = CHR 0x27" using s(2,3) by (auto simp: is_quote_def)
  moreover have "m_filename m = [] \<or>
      (hd (m_filename m) \<noteq> CHR 0x27 \<and> last (m_filename m) \<noteq> CHR 0x27)"
    using s(4) by (simp add: is_quote_def)
  ultimately show ?thesis using fn d(2) by blast
qed

lemma double_quote_line_decodes:
  "DrcovModule_init double_quote_line 2 =
     Inr (new_module\<lparr>m_id := 0, m_base := 0x1000, m_end := 0x3000, m_entry := 0x1010,
            m_path := ''/lib/'' @ [CHR 0x27, CHR 0x27] @ ''bar'' @ [CHR 0x27, CHR 0x27],
            m_size := 0x2000, m_filename := ''bar''\<rparr>)"
  by (simp add: double_quote_line_def py_defs module_defs Let_def)

theorem filename_from_path_witness:
  "DrcovModule_init double_quote_line 2 =
     Inr (new_module\<lparr>m_id := 0, m_base := 0x1000, m_end := 0x3000, m_entry := 0x1010,
            m_path := ''/lib/'' @ [CHR 0x27, CHR 0x27] @ ''bar'' @ [CHR 0x27, CHR 0x27],
            m_size := 0x2000, m_filename := ''bar''\<rparr>) \<and>
   py_strip is_quote (basename (''/lib/'' @ [CHR 0x27, CHR 0x27] @ ''bar'' @ [CHR 0x27, CHR 0x27])) = ''bar''"
proof (rule conjI)
  show "DrcovModule_init double_quote_line 2 =
     Inr (new_module\<lparr>m_id := 0, m_base := 0x1000, m_end := 0x3000, m_entry := 0x1010,
            m_path := ''/lib/'' @ [CHR 0x27, CHR 0x27] @ ''bar'' @ [CHR 0x27, CHR 0x27],
            m_size := 0x2000, m_filename := ''bar''\<rparr>)"
    by (rule double_quote_line_decodes)
  note e = filename_from_path [OF double_quote_line_decodes, THEN conjunct1, symmetric]
  show "py_strip is_quote (basename (''/lib/'' @ [CHR 0x27, CHR 0x27] @ ''bar'' @ [CHR 0x27, CHR 0x27])) = ''bar''"
    using e by simp
qed

text \<open>
  C3. Decoding a well-formed line of each version should recover every field. Evaluated on
  lines with the Windows pair: the version 2 decoder recovers checksum and timestamp; the
  version 3 decoder tests the field count against 7, which a version 3 line with the pair
  (8 fields) does not have, and leaves both at 0; the version 4 decoder tests against 7 too,
  which is the count of a version 4 line without the pair, then reads the path as the
  checksum (ValueError) or, if the path reads as a number, indexes past the end of the line
  (IndexError); a version 4 line with the pair (9 fields) is decoded with both left at 0.
\<close>

theorem windows_pair_by_field_count:
  "DrcovModule_init v2_windows_line 2 =
     Inr (new_module\<lparr>m_id := 0, m_base := 0x400000, m_end := 0x401000, m_entry := 0x400010,
            m_checksum := 0xabc, m_timestamp := 0x12, m_path := ''target.exe'',
            m_size := 0x1000, m_filename := ''target.exe''\<rparr>) \<and>
   DrcovModule_init v3_windows_line 3 =
     Inr (new_module\<lparr>m_id := 0, m_base := 0x400000, m_end := 0x401000, m_entry := 0x400010,
            m_checksum := 0, m_timestamp := 0, m_path := ''target.exe'',
            m_size := 0x1000, m_filename := ''target.exe''\<rparr>) \<and>
   DrcovModule_init v4_line 4 = Inl ValueError \<and>
   DrcovModule_init v4_hex_path_line 4 = Inl IndexError \<and>
   DrcovModule_init v4_windows_line 4 =
     Inr (new_module\<lparr>m_id := 0, m_base := 0x400000, m_end := 0x401000, m_entry := 0x400010,
            m_offset := Some 0, m_checksum := 0, m_timestamp := 0, m_path := ''target.exe'',
            m_size := 0x1000, m_filename := ''target.exe''\<rparr>)"
  by (simp add: v2_windows_line_def v3_windows_line_def v4_line_def v4_hex_path_line_def
      v4_windows_line_def py_defs module_defs Let_def)

section \<open>The log header\<close>

text \<open>
  C6. If the version field of the first line reads as an integer other than 2, the header
  stage raises (AssertionError, or IndexError when the second line has no colon), and the
  constructor fails with that error: no later stage runs.
\<close>

theorem unsupported_version_rejected:
  assumes "getitem (py_split '':'' (strip_ws (fst (readline \<lparr>buf = d, pos = 0\<rparr>)))) 1 = Inr fld"
    and "py_int 10 fld = Inr v" and "v \<noteq> 2"
  shows "\<exists>e. parse_drcov_header \<lparr>buf = d, pos = 0\<rparr> new_parser = Inl e \<and>
             (e = AssertionError \<or> e = IndexError) \<and>
             parse_drcov_data heap d new_parser = Inl e \<and>
             DrcovParser_init heap d = Inl e"
proof -
  let ?f = "\<lparr>buf = d, pos = 0\<rparr>"
  let ?fl = "getitem (py_split '':'' (strip_ws (fst (readline (snd (readline ?f)))))) 1"
  have h: "parse_drcov_header ?f new_parser =
             (case ?fl of Inl e \<Rightarrow> Inl e | Inr x \<Rightarrow> Inl AssertionError)"
    using assms
    by (simp add: parse_drcov_header_def Let_def split_beta then_do_def split: sum.splits)
  then obtain e where e: "parse_drcov_header ?f new_parser = Inl e" "e = AssertionError \<or> e = IndexError"
    by (cases ?fl) (auto simp: getitem_def split: if_splits)
  then show ?thesis
    by (simp add: parse_drcov_data_def DrcovParser_init_def parse_def new_parser_def)
qed

theorem unsupported_version_rejected_witness:
  "getitem (py_split '':'' (strip_ws (fst (readline \<lparr>buf = version3_log, pos = 0\<rparr>)))) 1 = Inr '' 3'' \<and>
   py_int 10 '' 3'' = Inr 3 \<and> (3::int) \<noteq> 2 \<and>
   parse_drcov_header \<lparr>buf = version3_log, pos = 0\<rparr> new_parser = Inl AssertionError \<and>
   DrcovParser_init example_heap version3_log = Inl AssertionError"
proof -
  have 1: "getitem (py_split '':'' (strip_ws (fst (readline \<lparr>buf = version3_log, pos = 0\<rparr>)))) 1 = Inr '' 3''"
    by (simp add: version3_log_def py_defs stream_defs Let_def)
  have 2: "py_int 10 '' 3'' = Inr 3"
    by (simp add: py_defs Let_def)
  have 3: "parse_drcov_header \<lparr>buf = version3_log, pos = 0\<rparr> new_parser = Inl AssertionError"
    by (simp add: version3_log_def py_defs stream_defs parser_defs Let_def)
  from unsupported_version_rejected [where heap = example_heap, OF 1 2] 3 have "DrcovParser_init example_heap version3_log = Inl AssertionError"
    by auto
  with 1 2 3 show ?thesis by simp
qed

section \<open>Hit counts\<close>

lemma hit_count_step_lookup:
  "hit_count (hit_count_step d bb) m off =
     (if (m, off) = bb_key bb
      then Some (case hit_count d m off of None \<Rightarrow> 1 | Some c \<Rightarrow> c + 1)
      else hit_count d m off)"
  by (auto simp: hit_count_step_def hit_count_def bb_key_def Let_def AList.update_conv'
      split: option.splits)

lemma hit_count_foldl:
  "hit_count (foldl hit_count_step d bbs) m off =
     (let n = count_list (map bb_key bbs) (m, off) in
      case hit_count d m off of
        None \<Rightarrow> if n = 0 then None else Some n
      | Some c \<Rightarrow> Some (c + n))"
proof (induction bbs arbitrary: d)
  case Nil
  then show ?case by (simp split: option.splits)
next
  case (Cons bb bbs)
  show ?case
    by (simp add: Cons.IH hit_count_step_lookup Let_def split: option.splits)
qed

lemma sum_list_update:
  fixes f :: "'k \<times> 'v \<Rightarrow> nat"
  shows "sum_list (map f (AList.update k v al)) +
           (case map_of al k of None \<Rightarrow> 0 | Some v0 \<Rightarrow> f (k, v0)) =
         sum_list (map f al) + f (k, v)"
  by (induction al) auto

lemma total_hits_step: "total_hits (hit_count_step d bb) = total_hits d + 1"
proof -
  let ?f = "\<lambda>(m, inner). sum_list (map snd inner) :: nat"
  let ?m = "uint (bb_mod_id bb)" and ?o = "uint (bb_offset bb)"
  show ?thesis
  proof (cases "map_of d ?m")
    case None
    let ?d1 = "AList.update ?m [] d"
    have 1: "sum_list (map ?f ?d1) = sum_list (map ?f d)"
      using sum_list_update [of ?f ?m "[]" d] None by simp
    have 2: "sum_list (map ?f (AList.update ?m [(?o, 1)] ?d1)) = sum_list (map ?f ?d1) + 1"
      using sum_list_update [of ?f ?m "[(?o, 1)]" ?d1] by (simp add: AList.update_conv')
    show ?thesis
      using None 1 2 by (simp add: hit_count_step_def total_hits_def Let_def AList.update_conv')
  next
    case inner: (Some inner)
    let ?inner' = "case map_of inner ?o of Some c \<Rightarrow> AList.update ?o (c + 1) inner
                   | None \<Rightarrow> AList.update ?o 1 inner"
    have i: "sum_list (map snd ?inner') = sum_list (map snd inner) + 1"
    proof (cases "map_of inner ?o")
      case None
      then show ?thesis using sum_list_update [of snd ?o 1 inner] by simp
    next
      case (Some c)
      then show ?thesis using sum_list_update [of snd ?o "c + 1" inner] by simp
    qed
    have "sum_list (map ?f (AList.update ?m ?inner' d)) + sum_list (map snd inner) =
          sum_list (map ?f d) + sum_list (map snd ?inner')"
      using sum_list_update [of ?f ?m ?inner' d] inner by simp
    then have "sum_list (map ?f (AList.update ?m ?inner' d)) = sum_list (map ?f d) + 1"
      using i by simp
    moreover have "hit_count_step d bb = AList.update ?m ?inner' d"
      using inner by (simp add: hit_count_step_def Let_def split: option.splits)
    ultimately show ?thesis by (simp add: total_hits_def)
  qed
qed

lemma total_hits_foldl: "total_hits (foldl hit_count_step d bbs) = total_hits d + length bbs"
  by (induction bbs arbitrary: d) (simp_all add: total_hits_step)

lemma set_update_subset: "set (AList.update k v al) \<subseteq> insert (k, v) (set al)"
  by (induction al) auto

lemma wf_hit_map_update:
  assumes "wf_hit_map d" "distinct (map fst inner)" "inner \<noteq> []"
  shows "wf_hit_map (AList.update m inner d)"
  using assms set_update_subset [of m inner d]
  by (auto simp: wf_hit_map_def list_all_iff AList.distinct_update)

lemma wf_hit_map_step: "wf_hit_map d \<Longrightarrow> wf_hit_map (hit_count_step d bb)"
proof -
  assume wf: "wf_hit_map d"
  let ?m = "uint (bb_mod_id bb)" and ?o = "uint (bb_offset bb)"
  show ?thesis
  proof (cases "map_of d ?m")
    case None
    have "hit_count_step d bb = AList.update ?m [(?o, 1)] d"
      using None by (simp add: hit_count_step_def Let_def AList.update_conv')
    then show ?thesis using wf by (simp add: wf_hit_map_update)
  next
    case (Some inner)
    then have "(?m, inner) \<in> set d" by (rule map_of_SomeD)
    with wf have di: "distinct (map fst inner)" by (auto simp: wf_hit_map_def list_all_iff)
    let ?inner' = "case map_of inner ?o of Some c \<Rightarrow> AList.update ?o (c + 1) inner
                   | None \<Rightarrow> AList.update ?o 1 inner"
    have "hit_count_step d bb = AList.update ?m ?inner' d"
      using Some by (simp add: hit_count_step_def Let_def split: option.splits)
    moreover have "distinct (map fst ?inner')" "?inner' \<noteq> []"
      using di by (auto simp: AList.distinct_update split: option.splits)
    ultimately show ?thesis using wf by (simp add: wf_hit_map_update)
  qed
qed

lemma wf_hit_map_foldl: "wf_hit_map d \<Longrightarrow> wf_hit_map (foldl hit_count_step d bbs)"
  by (induction bbs arbitrary: d) (simp_all add: wf_hit_map_step)

lemma length_distinct_keys:
  "distinct (map fst a) \<Longrightarrow> length a = card (dom (map_of a))"
  using distinct_card [of "map fst a"] by (simp add: dom_map_of_conv_image_fst)

lemma dict_eq_same_map:
  assumes "distinct (map fst a)" "distinct (map fst b)" "map_of a = map_of b"
  shows "dict_eq (=) a b"
proof -
  have "length a = length b"
    using assms by (simp add: length_distinct_keys)
  moreover have "map_of b k = Some v" if "(k, v) \<in> set a" for k v
    using that assms(1,3) by (metis map_of_is_SomeI)
  ultimately show ?thesis
    by (auto simp: dict_eq_def list_all_iff)
qed

lemma dict_eq_nested:
  assumes "distinct (map fst a)" "distinct (map fst b)" "dom (map_of a) = dom (map_of b)"
    and "\<And>k i i'. map_of a k = Some i \<Longrightarrow> map_of b k = Some i' \<Longrightarrow> veq i i'"
  shows "dict_eq veq a b"
proof -
  have "length a = length b"
    using assms(1-3) by (simp add: length_distinct_keys)
  moreover have "case map_of b k of None \<Rightarrow> False | Some v' \<Rightarrow> veq v v'" if "(k, v) \<in> set a" for k v
  proof -
    from that assms(1) have a: "map_of a k = Some v" by (rule map_of_is_SomeI [rotated])
    then have "k \<in> dom (map_of b)" using assms(3) by auto
    then obtain v' where b: "map_of b k = Some v'" by auto
    with a assms(4) show ?thesis by simp
  qed
  ultimately show ?thesis
    by (auto simp: dict_eq_def list_all_iff)
qed

lemma wf_hit_map_dom:
  assumes "wf_hit_map d"
  shows "m \<in> dom (map_of d) \<longleftrightarrow> (\<exists>off. hit_count d m off \<noteq> None)"
proof
  assume "m \<in> dom (map_of d)"
  then obtain inner where i: "map_of d m = Some inner" by auto
  then have "(m, inner) \<in> set d" by (rule map_of_SomeD)
  with assms have "inner \<noteq> []" by (auto simp: wf_hit_map_def list_all_iff)
  then obtain off c rest where "inner = (off, c) # rest" by (cases inner) auto
  then have "hit_count d m off = Some c" using i by (simp add: hit_count_def)
  then show "\<exists>off. hit_count d m off \<noteq> None" by auto
next
  assume "\<exists>off. hit_count d m off \<noteq> None"
  then show "m \<in> dom (map_of d)" by (auto simp: hit_count_def split: option.splits)
qed

lemma hit_map_eq_same_counts:
  assumes "wf_hit_map a" "wf_hit_map b" "\<And>m off. hit_count a m off = hit_count b m off"
  shows "hit_map_eq a b"
  unfolding hit_map_eq_def
proof (rule dict_eq_nested)
  show "distinct (map fst a)" "distinct (map fst b)"
    using assms(1,2) by (simp_all add: wf_hit_map_def)
  show "dom (map_of a) = dom (map_of b)"
  proof (rule set_eqI)
    fix m show "m \<in> dom (map_of a) \<longleftrightarrow> m \<in> dom (map_of b)"
      by (simp only: wf_hit_map_dom [OF assms(1)] wf_hit_map_dom [OF assms(2)] assms(3))
  qed
next
  fix k i i' assume a: "map_of a k = Some i" and b: "map_of b k = Some i'"
  have "(k, i) \<in> set a" "(k, i') \<in> set b"
    using a b by (auto dest: map_of_SomeD)
  then have d: "distinct (map fst i)" "distinct (map fst i')"
    using assms(1,2) by (auto simp: wf_hit_map_def list_all_iff)
  have "map_of i off = map_of i' off" for off
    using assms(3) [of k off] a b by (simp add: hit_count_def)
  then have "map_of i = map_of i'" by (rule ext)
  with d show "dict_eq (=) i i'" by (rule dict_eq_same_map)
qed

lemma hit_count_from_empty:
  "hit_count (foldl hit_count_step [] bbs) m off =
     (if count_list (map bb_key bbs) (m, off) = 0 then None
      else Some (count_list (map bb_key bbs) (m, off)))"
proof -
  have "hit_count [] m off = None" by (simp add: hit_count_def)
  then show ?thesis by (simp add: hit_count_foldl Let_def)
qed

lemma count_list_mset_cong:
  assumes "mset xs = mset ys"
  shows "count_list (map f xs) k = count_list (map f ys) k"
proof -
  have "mset (map f xs) = mset (map f ys)" using assms by (metis mset_map)
  then show ?thesis by (metis count_mset)
qed

text \<open>
  C5. Starting from the empty map of a new instance, the aggregator gives every pair
  \<open>(mod_id, offset)\<close> that occurs \<open>k \<ge> 1\<close> times among the decoded blocks the count \<open>k\<close>;
  the counts of the map add up to the number of blocks; and two arrays with the same blocks
  in different orders give maps that are equal as Python dicts.
\<close>

theorem hit_count_map_counts:
  assumes "bb_hit_count_map self = []"
  shows "(\<forall>bb \<in> set (raw_basic_blocks self).
            1 \<le> count_list (map bb_key (raw_basic_blocks self)) (bb_key bb) \<and>
            hit_count (bb_hit_count_map (generate_bb_hit_count_map self))
                (uint (bb_mod_id bb)) (uint (bb_offset bb)) =
              Some (count_list (map bb_key (raw_basic_blocks self)) (bb_key bb))) \<and>
         total_hits (bb_hit_count_map (generate_bb_hit_count_map self)) =
           length (raw_basic_blocks self) \<and>
         (\<forall>self'. bb_hit_count_map self' = [] \<and>
                  mset (raw_basic_blocks self') = mset (raw_basic_blocks self) \<longrightarrow>
            hit_map_eq (bb_hit_count_map (generate_bb_hit_count_map self'))
              (bb_hit_count_map (generate_bb_hit_count_map self)))"
proof -
  let ?bbs = "raw_basic_blocks self"
  have g: "bb_hit_count_map (generate_bb_hit_count_map s) = foldl hit_count_step [] (raw_basic_blocks s)"
    if "bb_hit_count_map s = []" for s
    using that by (simp add: generate_bb_hit_count_map_def)
  have 1: "1 \<le> count_list (map bb_key ?bbs) (bb_key bb) \<and>
           hit_count (bb_hit_count_map (generate_bb_hit_count_map self))
             (uint (bb_mod_id bb)) (uint (bb_offset bb)) =
             Some (count_list (map bb_key ?bbs) (bb_key bb))"
    if "bb \<in> set ?bbs" for bb
  proof -
    from that have "bb_key bb \<in> set (map bb_key ?bbs)" by simp
    then have pos: "count_list (map bb_key ?bbs) (bb_key bb) \<noteq> 0"
      by (simp add: count_list_0_iff)
    have "hit_count (foldl hit_count_step [] ?bbs) (uint (bb_mod_id bb)) (uint (bb_offset bb)) =
          Some (count_list (map bb_key ?bbs) (bb_key bb))"
      using pos hit_count_from_empty [of ?bbs "uint (bb_mod_id bb)" "uint (bb_offset bb)"]
      by (simp add: bb_key_def)
    with pos show ?thesis by (simp add: g [OF assms])
  qed
  have 2: "total_hits (bb_hit_count_map (generate_bb_hit_count_map self)) = length ?bbs"
  proof -
    have "total_hits [] = 0" by (simp add: total_hits_def)
    then show ?thesis by (simp add: g [OF assms] total_hits_foldl)
  qed
  have 3: "hit_map_eq (bb_hit_count_map (generate_bb_hit_count_map self'))
             (bb_hit_count_map (generate_bb_hit_count_map self))"
    if e: "bb_hit_count_map self' = []" and p: "mset (raw_basic_blocks self') = mset ?bbs" for self'
  proof -
    have wf: "wf_hit_map (foldl hit_count_step [] bs)" for bs
      by (rule wf_hit_map_foldl) (simp add: wf_hit_map_def)
    have "hit_count (foldl hit_count_step [] (raw_basic_blocks self')) m off =
          hit_count (foldl hit_count_step [] ?bbs) m off" for m off
      by (simp only: hit_count_from_empty count_list_mset_cong [OF p])
    then show ?thesis
      unfolding g [OF assms] g [OF e] by (intro hit_map_eq_same_counts wf)
  qed
  from 1 2 3 show ?thesis by blast
qed

theorem hit_count_map_counts_witness:
  "bb_hit_count_map hits_parser = [] \<and>
   bb_hit_count_map (generate_bb_hit_count_map hits_parser) = [(0, [(0x10, 2), (0x20, 1)]), (1, [(0x10, 1)])] \<and>
   hit_count (bb_hit_count_map (generate_bb_hit_count_map hits_parser)) 0 0x10 = Some 2 \<and>
   total_hits (bb_hit_count_map (generate_bb_hit_count_map hits_parser)) = 4 \<and>
   mset (raw_basic_blocks permuted_parser) = mset (raw_basic_blocks hits_parser) \<and>
   bb_hit_count_map (generate_bb_hit_count_map permuted_parser) = [(1, [(0x10, 1)]), (0, [(0x20, 1), (0x10, 2)])] \<and>
   hit_map_eq (bb_hit_count_map (generate_bb_hit_count_map permuted_parser))
     (bb_hit_count_map (generate_bb_hit_count_map hits_parser))"
proof -
  have e: "bb_hit_count_map hits_parser = []" and e': "bb_hit_count_map permuted_parser = []"
    by (simp_all add: hits_parser_def permuted_parser_def new_parser_def)
  have p: "mset (raw_basic_blocks permuted_parser) = mset (raw_basic_blocks hits_parser)"
    by (simp add: hits_parser_def permuted_parser_def)
  have g: "bb_hit_count_map (generate_bb_hit_count_map hits_parser) = [(0, [(0x10, 2), (0x20, 1)]), (1, [(0x10, 1)])]"
    by (simp add: hits_parser_def new_parser_def generate_bb_hit_count_map_def hit_count_step_def Let_def)
  have g': "bb_hit_count_map (generate_bb_hit_count_map permuted_parser) = [(1, [(0x10, 1)]), (0, [(0x20, 1), (0x10, 2)])]"
    by (simp add: permuted_parser_def new_parser_def generate_bb_hit_count_map_def hit_count_step_def Let_def)
  note t = hit_count_map_counts [OF e]
  have b: "\<lparr>bb_offset = 0x10, bb_size = 4, bb_mod_id = 0\<rparr> \<in> set (raw_basic_blocks hits_parser)"
    by (simp add: hits_parser_def)
  from t have "total_hits (bb_hit_count_map (generate_bb_hit_count_map hits_parser)) = length (raw_basic_blocks hits_parser)"
    by blast
  then have 2: "total_hits (bb_hit_count_map (generate_bb_hit_count_map hits_parser)) = 4"
    by (simp add: hits_parser_def)
  from t e' p have 3: "hit_map_eq (bb_hit_count_map (generate_bb_hit_count_map permuted_parser))
     (bb_hit_count_map (generate_bb_hit_count_map hits_parser))"
    by blast
  have 1: "hit_count (bb_hit_count_map (generate_bb_hit_count_map hits_parser)) 0 0x10 = Some 2"
    unfolding g by (simp add: hit_count_def)
  from e g 1 2 p g' 3 show ?thesis by blast
qed

end
